theory Spec2Isabelle
  imports Main "HOL-Library.Word" "HOL-Library.Signed_Division"
begin

section \<open>Go library functions used by the websocket client\<close>

text \<open>
  A Go \<^verbatim>\<open>[]byte\<close> is a list of 8-bit characters. The functions of the packages
  \<^verbatim>\<open>bytes\<close> and \<^verbatim>\<open>strconv\<close> that the fast-path filters call are written out
  byte by byte, after the Go standard library.
\<close>

type_synonym bytes = string
type_synonym uint64 = "64 word"

text \<open>\<^verbatim>\<open>b[lo:hi]\<close>; every use in the client is guarded by a length check.\<close>

definition slice :: "nat \<Rightarrow> nat \<Rightarrow> bytes \<Rightarrow> bytes" where
  "slice lo hi b = take (hi - lo) (drop lo b)"

text \<open>\<^verbatim>\<open>bytes.Index\<close>: the index of the first instance of \<open>sep\<close>, \<open>None\<close> for Go's -1.\<close>

fun bytes_Index :: "bytes \<Rightarrow> bytes \<Rightarrow> nat option" where
  "bytes_Index [] sep = (if sep = [] then Some 0 else None)"
| "bytes_Index (x # xs) sep =
     (if take (length sep) (x # xs) = sep then Some 0
      else map_option Suc (bytes_Index xs sep))"

text \<open>\<^verbatim>\<open>bytes.Cut\<close>: slices around the first instance of \<open>sep\<close>.\<close>

definition bytes_Cut :: "bytes \<Rightarrow> bytes \<Rightarrow> bytes \<times> bytes \<times> bool" where
  "bytes_Cut s sep =
     (case bytes_Index s sep of
        Some i \<Rightarrow> (take i s, drop (i + length sep) s, True)
      | None \<Rightarrow> (s, [], False))"

text \<open>
  \<^verbatim>\<open>bytes.IndexAny\<close> for a set of ASCII characters: the index of the first byte of
  \<open>s\<close> that is one of \<open>chars\<close>, \<open>None\<close> for Go's -1.
\<close>

fun bytes_IndexAny :: "bytes \<Rightarrow> bytes \<Rightarrow> nat option" where
  "bytes_IndexAny [] chars = None"
| "bytes_IndexAny (x # xs) chars =
     (if x \<in> set chars then Some 0 else map_option Suc (bytes_IndexAny xs chars))"

text \<open>
  \<^verbatim>\<open>bytes.TrimSpace\<close> removes leading and trailing white space as Unicode defines it
  (\<^verbatim>\<open>unicode.IsSpace\<close>). The UTF-8 decoder accepts shortest encodings only, so a
  white-space rune is recognised by its byte sequence: six ASCII characters, and
  U+0085, U+00A0, U+1680, U+2000 to U+200A, U+2028, U+2029, U+202F, U+205F, U+3000.
\<close>

definition space_runes :: "bytes list" where
  "space_runes =
     [[CHR 0x09], [CHR 0x0A], [CHR 0x0B], [CHR 0x0C], [CHR 0x0D], [CHR 0x20],
      [CHR 0xC2, CHR 0x85], [CHR 0xC2, CHR 0xA0], [CHR 0xE1, CHR 0x9A, CHR 0x80],
      [CHR 0xE2, CHR 0x80, CHR 0x80], [CHR 0xE2, CHR 0x80, CHR 0x81],
      [CHR 0xE2, CHR 0x80, CHR 0x82], [CHR 0xE2, CHR 0x80, CHR 0x83],
      [CHR 0xE2, CHR 0x80, CHR 0x84], [CHR 0xE2, CHR 0x80, CHR 0x85],
      [CHR 0xE2, CHR 0x80, CHR 0x86], [CHR 0xE2, CHR 0x80, CHR 0x87],
      [CHR 0xE2, CHR 0x80, CHR 0x88], [CHR 0xE2, CHR 0x80, CHR 0x89],
      [CHR 0xE2, CHR 0x80, CHR 0x8A], [CHR 0xE2, CHR 0x80, CHR 0xA8],
      [CHR 0xE2, CHR 0x80, CHR 0xA9], [CHR 0xE2, CHR 0x80, CHR 0xAF],
      [CHR 0xE2, CHR 0x81, CHR 0x9F], [CHR 0xE3, CHR 0x80, CHR 0x80]]"

text \<open>The width of the white-space rune \<open>s\<close> starts with (ends with), 0 if it does not.\<close>

definition leadingSpace :: "bytes \<Rightarrow> nat" where
  "leadingSpace s =
     (case find (\<lambda>p. take (length p) s = p) space_runes of
        Some p \<Rightarrow> length p | None \<Rightarrow> 0)"

definition trailingSpace :: "bytes \<Rightarrow> nat" where
  "trailingSpace s =
     (case find (\<lambda>p. length p \<le> length s \<and> drop (length s - length p) s = p) space_runes of
        Some p \<Rightarrow> length p | None \<Rightarrow> 0)"

lemma leadingSpace_le: "leadingSpace s \<le> length s"
proof (cases "find (\<lambda>p. take (length p) s = p) space_runes")
  case None
  then show ?thesis by (simp add: leadingSpace_def)
next
  case (Some p)
  then have "take (length p) s = p" by (auto simp: find_Some_iff)
  then have "length p \<le> length s" by (metis length_take min.cobounded1)
  with Some show ?thesis by (simp add: leadingSpace_def)
qed

lemma trailingSpace_le: "trailingSpace s \<le> length s"
  by (auto simp: trailingSpace_def find_Some_iff split: option.splits)

function trimLeft :: "bytes \<Rightarrow> bytes" where
  "trimLeft s = (if leadingSpace s = 0 then s else trimLeft (drop (leadingSpace s) s))"
  by pat_completeness auto
termination
proof (relation "measure length")
  show "wf (measure length)" by simp
next
  fix s assume "leadingSpace s \<noteq> 0"
  with leadingSpace_le [of s] show "(drop (leadingSpace s) s, s) \<in> measure length"
    by simp
qed

function trimRight :: "bytes \<Rightarrow> bytes" where
  "trimRight s =
     (if trailingSpace s = 0 then s else trimRight (take (length s - trailingSpace s) s))"
  by pat_completeness auto
termination
proof (relation "measure length")
  show "wf (measure length)" by simp
next
  fix s assume "trailingSpace s \<noteq> 0"
  with trailingSpace_le [of s]
  show "(take (length s - trailingSpace s) s, s) \<in> measure length"
    by simp
qed

declare trimLeft.simps [simp del] trimRight.simps [simp del]

definition bytes_TrimSpace :: "bytes \<Rightarrow> bytes" where
  "bytes_TrimSpace s = trimRight (trimLeft s)"

text \<open>
  \<^verbatim>\<open>strconv.ParseUint(s, 10, 64)\<close>: no sign, no underscore, digits only; the loop
  stops with a range error as soon as the value leaves 64 bits.
\<close>

datatype strconv_error = ErrSyntax | ErrRange

definition is_digit :: "char \<Rightarrow> bool" where
  "is_digit c \<longleftrightarrow> 48 \<le> (of_char c :: nat) \<and> (of_char c :: nat) \<le> 57"

definition digit_val :: "char \<Rightarrow> nat" where
  "digit_val c = of_char c - 48"

definition cutoff :: uint64 where
  "cutoff = 1844674407370955162"

fun parse_digits :: "uint64 \<Rightarrow> bytes \<Rightarrow> strconv_error + uint64" where
  "parse_digits n [] = Inr n"
| "parse_digits n (c # cs) =
     (if \<not> is_digit c then Inl ErrSyntax
      else if cutoff \<le> n then Inl ErrRange
      else let n10 = n * 10; n1 = n10 + of_nat (digit_val c)
           in if n1 < n10 then Inl ErrRange else parse_digits n1 cs)"

definition strconv_ParseUint :: "bytes \<Rightarrow> strconv_error + uint64" where
  "strconv_ParseUint s = (if s = [] then Inl ErrSyntax else parse_digits 0 s)"

section \<open>Fast-path filters\<close>

definition lit_subscription :: bytes where
  \<open>lit_subscription = ''"subscription":''\<close>

definition lit_err :: bytes where
  \<open>lit_err = ''"err":''\<close>

definition lit_signature :: bytes where
  \<open>lit_signature = ''"signature":"''\<close>

definition delimiters :: bytes where
  "delimiters = '' ,]}''"

text \<open>\<^verbatim>\<open>defaultSubIDRetrievals["transactionNotification"]\<close>\<close>

definition transactionNotification_subID :: "bytes \<Rightarrow> uint64 \<times> bool" where
  "transactionNotification_subID b =
     (let chunkEnd = 128 in
      if length b < chunkEnd then (0, False)
      else
        let chunk = slice 60 chunkEnd b in
        case bytes_Cut chunk lit_subscription of
          (_, after, ok) \<Rightarrow>
            if \<not> ok then (0, False)
            else (case bytes_IndexAny after delimiters of
              None \<Rightarrow> (0, False)
            | Some idx \<Rightarrow>
                let ident = bytes_TrimSpace (take idx after) in
                (case strconv_ParseUint ident of
                   Inl err \<Rightarrow> (0, False)
                 | Inr subID \<Rightarrow> (subID, True))))"

text \<open>\<^verbatim>\<open>defaultSubIDRetrievals["logsNotification"]\<close>\<close>

definition logsNotification_subID :: "bytes \<Rightarrow> uint64 \<times> bool" where
  "logsNotification_subID b =
     (let chunkSize = (if length b < 64 then length b else 64);
          chunk = drop (length b - chunkSize) b in
      case bytes_Cut chunk lit_subscription of
        (_, after, ok) \<Rightarrow>
          if \<not> ok then (0, False)
          else (case bytes_IndexAny after delimiters of
            None \<Rightarrow> (0, False)
          | Some idx \<Rightarrow>
              let ident = bytes_TrimSpace (take idx after) in
              (case strconv_ParseUint ident of
                 Inl err \<Rightarrow> (0, False)
               | Inr subID \<Rightarrow> (subID, True))))"

text \<open>\<^verbatim>\<open>defaultTxDiscarders["logsNotification"]\<close>\<close>

definition logsNotification_discarder :: "bytes \<Rightarrow> bool" where
  "logsNotification_discarder b =
     (let chunkStart = 192; chunkSize = 64 in
      if length b < chunkStart + chunkSize then False
      else
        let chunk = slice chunkStart (chunkStart + chunkSize) b in
        case bytes_Cut chunk lit_err of
          (_, after, ok) \<Rightarrow>
            if \<not> ok then False
            else (case bytes_IndexAny after delimiters of
              None \<Rightarrow> False
            | Some idx \<Rightarrow>
                let val = bytes_TrimSpace (take idx after) in
                if val = ''null'' then False else True))"

text \<open>
  A \<^verbatim>\<open>solana.Signature\<close> is an array of 64 bytes; \<^verbatim>\<open>solana.Signature{}\<close> is all
  zero. \<^verbatim>\<open>solana.SignatureFromBase58\<close> belongs to the root package and is taken as
  the parameter \<open>fromBase58\<close>: the signature it returns, its error being discarded by
  the callers.
\<close>

type_synonym Signature = "8 word list"

definition zeroSignature :: Signature where
  "zeroSignature = replicate 64 0"

text \<open>\<^verbatim>\<open>defaultSigRetrievals["logsNotification"]\<close>\<close>

definition logsNotification_signature :: "(bytes \<Rightarrow> Signature) \<Rightarrow> bytes \<Rightarrow> Signature" where
  "logsNotification_signature fromBase58 b =
     (let chunkStart = 96; chunkSize = 128 in
      if length b < chunkStart + chunkSize then zeroSignature
      else
        let chunk = slice chunkStart (chunkStart + chunkSize) b in
        case bytes_Cut chunk lit_signature of
          (_, after, ok) \<Rightarrow>
            if \<not> ok then zeroSignature
            else (case bytes_IndexAny after [CHR 0x22] of
              None \<Rightarrow> zeroSignature
            | Some idx \<Rightarrow> fromBase58 (bytes_TrimSpace (take idx after))))"

text \<open>\<^verbatim>\<open>defaultSigRetrievals["transactionNotification"]\<close>\<close>

definition transactionNotification_signature :: "(bytes \<Rightarrow> Signature) \<Rightarrow> bytes \<Rightarrow> Signature" where
  "transactionNotification_signature fromBase58 b =
     (let chunkStart = int (length b) - 128 in
      if chunkStart < 0 then zeroSignature
      else
        let chunk = drop (nat chunkStart) b in
        case bytes_Cut chunk lit_signature of
          (_, after, ok) \<Rightarrow>
            if \<not> ok then zeroSignature
            else (case bytes_IndexAny after [CHR 0x22] of
              None \<Rightarrow> zeroSignature
            | Some idx \<Rightarrow> fromBase58 (bytes_TrimSpace (take idx after))))"

text \<open>The three filter tables, keyed by RPC method name.\<close>

type_synonym subIDRetrievalFunc = "bytes \<Rightarrow> uint64 \<times> bool"
type_synonym txDiscarderFunc = "bytes \<Rightarrow> bool"
type_synonym signatureRetrievalFunc = "bytes \<Rightarrow> Signature"

definition defaultSubIDRetrievals :: "string \<rightharpoonup> subIDRetrievalFunc" where
  "defaultSubIDRetrievals =
     [''transactionNotification'' \<mapsto> transactionNotification_subID,
      ''logsNotification'' \<mapsto> logsNotification_subID]"

definition defaultTxDiscarders :: "string \<rightharpoonup> txDiscarderFunc" where
  "defaultTxDiscarders = [''logsNotification'' \<mapsto> logsNotification_discarder]"

definition defaultSigRetrievals :: "(bytes \<Rightarrow> Signature) \<Rightarrow> string \<rightharpoonup> signatureRetrievalFunc" where
  "defaultSigRetrievals fromBase58 =
     [''logsNotification'' \<mapsto> logsNotification_signature fromBase58,
      ''transactionNotification'' \<mapsto> transactionNotification_signature fromBase58]"

section \<open>Data model of the client\<close>

text \<open>
  Errors are values. The constructors that wrap another error stand for the
  \<^verbatim>\<open>fmt.Errorf("...: %w", err)\<close> of the source; \<open>External\<close> is an error raised by a
  library (JSON decoding, the socket).
\<close>

datatype error =
    External string
  | StrconvError strconv_error
  | ValueIsNotANumber bytes
  | NewWsClientDial error
  | UnableToDecodeClientResponse error
  | ReachedChannelMaxCapacity nat
  | SubscribeUnableToEncode error
  | UnableToWriteRequest error
  | UnableToEncodeUnsubscription uint64 string
  | UnableToSendUnsubscription uint64 string
  | Json2Error int string "bytes option"
  | ErrNullResult
  | NilPointerDereference

text \<open>\<^verbatim>\<open>json2.E_SERVER\<close>\<close>

definition E_SERVER :: int where
  "E_SERVER = - 32000"

text \<open>
  Modelled from the spec: the request type, \<^verbatim>\<open>newRequest\<close> and \<^verbatim>\<open>encode\<close> are not
  under src/. A request has an unsigned 64-bit id, a method and a parameter list; a
  non-nil configuration is appended to non-nil parameters as the last element. The id
  comes from the parameter \<open>mintID\<close>, applied to the number of requests made so far.
  A parameter is an \<^verbatim>\<open>interface{}\<close>: a subscription id or an opaque value.
\<close>

datatype 'p iface = Uint64Value uint64 | Opaque 'p

record 'p request =
  ID :: uint64
  Method :: string
  Params :: "'p iface list option"

definition newRequest ::
  "(nat \<Rightarrow> uint64) \<Rightarrow> nat \<Rightarrow> 'p iface list option \<Rightarrow> string \<Rightarrow> 'p option \<Rightarrow> 'p request" where
  "newRequest mintID minted params method configuration =
     \<lparr> ID = mintID minted,
       Method = method,
       Params = (case (params, configuration) of
                   (Some ps, Some conf) \<Rightarrow> Some (ps @ [Opaque conf])
                 | _ \<Rightarrow> params) \<rparr>"

text \<open>
  Modelled from the spec: the Subscription struct and \<^verbatim>\<open>newSubscription\<close> are not under
  src/. An entry holds its request, the subscription id (zero until the ack), a
  bounded result stream, an error channel, the paired unsubscribe method and the
  decoder. A buffered channel is the list of the values it holds with its capacity.
  The teardown hook of an entry calls \<^verbatim>\<open>closeSubscription\<close> with the entry's request
  id and is not stored.
\<close>

record ('p, 'v) Subscription =
  req :: "'p request"
  subID :: uint64
  stream :: "'v list"
  stream_cap :: nat
  err :: "error list"
  err_cap :: nat
  unsubscribeMethod :: string
  decoderFunc :: "bytes \<Rightarrow> error + 'v"

definition newSubscription ::
  "nat \<Rightarrow> nat \<Rightarrow> 'p request \<Rightarrow> string \<Rightarrow> (bytes \<Rightarrow> error + 'v) \<Rightarrow> ('p, 'v) Subscription" where
  "newSubscription streamCapacity errCapacity r unsubscribeMeth decoder =
     \<lparr> req = r, subID = 0, stream = [], stream_cap = streamCapacity,
       err = [], err_cap = errCapacity,
       unsubscribeMethod = unsubscribeMeth, decoderFunc = decoder \<rparr>"

text \<open>An address at which nothing was allocated yet reads as this entry.\<close>

definition unallocated :: "('p, 'v) Subscription" where
  "unallocated =
     newSubscription 0 0 \<lparr>ID = 0, Method = [], Params = None\<rparr> [] (\<lambda>b. Inl ErrNullResult)"

text \<open>
  A send on a buffered channel appends when there is room; on a full channel the
  sender blocks, which is \<open>None\<close> here: the call does not return.
\<close>

definition chan_send :: "'a list \<Rightarrow> nat \<Rightarrow> 'a \<Rightarrow> 'a list option" where
  "chan_send buf capacity x = (if length buf < capacity then Some (buf @ [x]) else None)"

text \<open>
  The socket: the text frames written so far, and the error every write fails with
  once the connection is broken.
\<close>

record Conn =
  written :: "bytes list"
  broken :: "error option"

definition WriteMessage :: "Conn \<Rightarrow> bytes \<Rightarrow> Conn \<times> error option" where
  "WriteMessage cn data =
     (case broken cn of
        Some e \<Rightarrow> (cn, Some e)
      | None \<Rightarrow> (cn\<lparr>written := written cn @ [data]\<rparr>, None))"

text \<open>
  The \<^verbatim>\<open>LogsSignatureCache\<close> interface: both methods may change the state \<open>'c\<close> of
  the object behind it.
\<close>

record 'c LogsSignatureCache =
  Has :: "'c \<Rightarrow> Signature \<Rightarrow> bool \<times> 'c"
  Set :: "'c \<Rightarrow> Signature \<Rightarrow> 'c"

definition defaultLogsSignatureCache :: "'c LogsSignatureCache" where
  "defaultLogsSignatureCache = \<lparr> Has = (\<lambda>st sig. (False, st)), Set = (\<lambda>st sig. st) \<rparr>"

text \<open>
  \<^verbatim>\<open>time.Duration\<close> is a signed 64-bit count of nanoseconds: multiplication wraps,
  division truncates towards zero, comparison is signed.
\<close>

type_synonym Duration = "64 word"

definition Second :: Duration where
  "Second = 1000000000"

definition duration_div :: "Duration \<Rightarrow> Duration \<Rightarrow> Duration" where
  "duration_div a b = word_of_int (sint a sdiv sint b)"

definition const_pongWait :: Duration where
  "const_pongWait = 60 * Second"

definition const_pingPeriod :: Duration where
  "const_pingPeriod = duration_div (const_pongWait * 9) 10"

text \<open>
  Modelled from the spec: the Options struct is not under src/; these are the fields
  \<^verbatim>\<open>ConnectWithOptions\<close> reads.
\<close>

record Options =
  HttpHeader :: "(string \<times> string list) list option"
  HandshakeTimeout :: Duration
  PongWait :: Duration
  PingPeriod :: Duration
  UseSubIDRetrievals :: bool
  DiscardFailedTxs :: bool

text \<open>
  The client. Subscriptions are shared between the two indices through pointers: an
  index maps to an address, and \<open>heap\<close> holds the object at each address.
\<close>

type_synonym addr = nat

record ('p, 'v, 'c) Client =
  rpcURL :: string
  conn :: Conn
  subscriptionByRequestID :: "uint64 \<rightharpoonup> addr"
  subscriptionByWSSubID :: "uint64 \<rightharpoonup> addr"
  heap :: "addr \<Rightarrow> ('p, 'v) Subscription"
  allocated :: nat
  minted :: nat
  pongWait :: Duration
  pingPeriod :: Duration
  subIDRetrievals :: "string \<rightharpoonup> subIDRetrievalFunc"
  txDiscarders :: "string \<rightharpoonup> txDiscarderFunc"
  sigRetrievals :: "string \<rightharpoonup> signatureRetrievalFunc"
  sigCache :: "'c LogsSignatureCache"
  sigCache_state :: 'c

text \<open>
  What the client takes from outside this file: the JSON libraries, the websocket
  dialer, and the declarations of the package that are not under src/.
\<close>

datatype ValueType = NotExist | String | Number | Object | Array | Boolean | Null | Unknown

record Dialer =
  dialer_HandshakeTimeout :: Duration
  EnableCompression :: bool

text \<open>
  The response envelope after decoding: \<^verbatim>\<open>Params\<close>, \<^verbatim>\<open>Error\<close> and \<^verbatim>\<open>Params.Result\<close>
  are pointers, nil when the body has no such member.
\<close>

record response_params =
  Result :: "bytes option"

record response =
  resp_Params :: "response_params option"
  resp_Error :: "bytes option"

record ('p, 'v) env =
  jsoniter_Unmarshal_ack :: "bytes \<Rightarrow> uint64 \<times> uint64"
  jsonparser_GetString :: "bytes \<Rightarrow> string list \<Rightarrow> error + string"
  jsonparser_Get :: "bytes \<Rightarrow> string list \<Rightarrow> error + (bytes \<times> ValueType)"
  json_Unmarshal_response :: "bytes \<Rightarrow> error + response option"
  json_Unmarshal_Error :: "bytes \<Rightarrow> error + (int \<times> string \<times> bytes option)"
  json_Unmarshal_reply :: "bytes \<Rightarrow> error + 'v"
  encode :: "'p request \<Rightarrow> error + bytes"
  mintID :: "nat \<Rightarrow> uint64"
  streamCapacity :: nat
  errCapacity :: nat
  DefaultHandshakeTimeout :: Duration
  SignatureFromBase58 :: "bytes \<Rightarrow> Signature"
  DialContext :: "Dialer \<Rightarrow> string \<Rightarrow> (string \<times> string list) list option \<Rightarrow> error + Conn"

section \<open>Operations of the client\<close>

text \<open>\<^verbatim>\<open>ConnectWithOptions\<close>, up to the start of the background tasks.\<close>

definition ConnectWithOptions ::
  "('p, 'v) env \<Rightarrow> string \<Rightarrow> Options option \<Rightarrow> 'c LogsSignatureCache option \<Rightarrow> 'c
     \<Rightarrow> error + ('p, 'v, 'c) Client" where
  "ConnectWithOptions E rpcEndpoint opt cache cache_state =
     (let sigRetrievals0 = (case cache of None \<Rightarrow> Map.empty
                            | Some _ \<Rightarrow> defaultSigRetrievals (SignatureFromBase58 E));
          sigCache0 = (case cache of None \<Rightarrow> defaultLogsSignatureCache | Some ca \<Rightarrow> ca);
          dialer = \<lparr> dialer_HandshakeTimeout =
                       (case opt of
                          Some opts \<Rightarrow> if 0 <s HandshakeTimeout opts then HandshakeTimeout opts
                                    else DefaultHandshakeTimeout E
                        | None \<Rightarrow> DefaultHandshakeTimeout E),
                     EnableCompression = True \<rparr>;
          pongWait0 = (case opt of
                         Some opts \<Rightarrow> if 0 <s PongWait opts then PongWait opts else const_pongWait
                       | None \<Rightarrow> const_pongWait);
          pingPeriod0 = (case opt of
                           Some opts \<Rightarrow>
                             if 0 <s PongWait opts
                             then (if 0 <s PingPeriod opts then PingPeriod opts
                                   else duration_div (PongWait opts * 9) 10)
                             else const_pingPeriod
                         | None \<Rightarrow> const_pingPeriod);
          subIDRetrievals0 = (case opt of
                                Some opts \<Rightarrow> if UseSubIDRetrievals opts then defaultSubIDRetrievals
                                          else Map.empty
                              | None \<Rightarrow> Map.empty);
          txDiscarders0 = (case opt of
                             Some opts \<Rightarrow> if DiscardFailedTxs opts then defaultTxDiscarders
                                       else Map.empty
                           | None \<Rightarrow> Map.empty);
          httpHeader = (case opt of
                          Some opts \<Rightarrow> (case HttpHeader opts of
                                       Some h \<Rightarrow> if length h > 0 then Some h else None
                                     | None \<Rightarrow> None)
                        | None \<Rightarrow> None)
      in case DialContext E dialer rpcEndpoint httpHeader of
           Inl e \<Rightarrow> Inl (NewWsClientDial e)
         | Inr cn \<Rightarrow>
             Inr \<lparr> rpcURL = rpcEndpoint, conn = cn,
                   subscriptionByRequestID = Map.empty,
                   subscriptionByWSSubID = Map.empty,
                   heap = (\<lambda>a. unallocated),
                   allocated = 0, minted = 0,
                   pongWait = pongWait0, pingPeriod = pingPeriod0,
                   subIDRetrievals = subIDRetrievals0,
                   txDiscarders = txDiscarders0,
                   sigRetrievals = sigRetrievals0,
                   sigCache = sigCache0, sigCache_state = cache_state \<rparr>)"

text \<open>\<^verbatim>\<open>getUint64\<close> and \<^verbatim>\<open>getUint64WithOk\<close>\<close>

definition getUint64 :: "('p, 'v) env \<Rightarrow> bytes \<Rightarrow> string list \<Rightarrow> error + uint64" where
  "getUint64 E data keys =
     (case jsonparser_Get E data keys of
        Inl e \<Rightarrow> Inl e
      | Inr (v, t) \<Rightarrow>
          if t \<noteq> Number then Inl (ValueIsNotANumber v)
          else (case strconv_ParseUint v of
                  Inl e \<Rightarrow> Inl (StrconvError e)
                | Inr n \<Rightarrow> Inr n))"

definition getUint64WithOk :: "('p, 'v) env \<Rightarrow> bytes \<Rightarrow> string list \<Rightarrow> uint64 \<times> bool" where
  "getUint64WithOk E data path =
     (case getUint64 E data path of Inr val \<Rightarrow> (val, True) | Inl e \<Rightarrow> (0, False))"

text \<open>\<^verbatim>\<open>handleNewSubscriptionMessage\<close>\<close>

definition handleNewSubscriptionMessage ::
  "('p, 'v, 'c) Client \<Rightarrow> uint64 \<Rightarrow> uint64 \<Rightarrow> ('p, 'v, 'c) Client" where
  "handleNewSubscriptionMessage c requestID sid =
     (case subscriptionByRequestID c requestID of
        None \<Rightarrow> c
      | Some callBack \<Rightarrow>
          c\<lparr> heap := (heap c)(callBack := (heap c callBack)\<lparr>subID := sid\<rparr>),
             subscriptionByWSSubID := (subscriptionByWSSubID c)(sid \<mapsto> callBack) \<rparr>)"

text \<open>\<^verbatim>\<open>unsubscribe\<close>: the client after the call, and the error returned.\<close>

definition unsubscribe ::
  "('p, 'v) env \<Rightarrow> ('p, 'v, 'c) Client \<Rightarrow> uint64 \<Rightarrow> string \<Rightarrow> ('p, 'v, 'c) Client \<times> error option" where
  "unsubscribe E c sid method =
     (let r = newRequest (mintID E) (minted c) (Some [Uint64Value sid]) method None;
          c1 = c\<lparr>minted := minted c + 1\<rparr>
      in case encode E r of
           Inl e \<Rightarrow> (c1, Some (UnableToEncodeUnsubscription sid method))
         | Inr data \<Rightarrow>
             (case WriteMessage (conn c1) data of
                (cn, Some e) \<Rightarrow> (c1\<lparr>conn := cn\<rparr>, Some (UnableToSendUnsubscription sid method))
              | (cn, None) \<Rightarrow> (c1\<lparr>conn := cn\<rparr>, None)))"

text \<open>\<^verbatim>\<open>closeSubscription\<close>; \<open>None\<close> when the send on the error channel blocks.\<close>

definition closeSubscription ::
  "('p, 'v) env \<Rightarrow> ('p, 'v, 'c) Client \<Rightarrow> uint64 \<Rightarrow> error \<Rightarrow> ('p, 'v, 'c) Client option" where
  "closeSubscription E c reqID e =
     (case subscriptionByRequestID c reqID of
        None \<Rightarrow> Some c
      | Some a \<Rightarrow>
          let sub = heap c a in
          (case chan_send (err sub) (err_cap sub) e of
             None \<Rightarrow> None
           | Some errs \<Rightarrow>
               let c1 = c\<lparr>heap := (heap c)(a := sub\<lparr>err := errs\<rparr>)\<rparr>;
                   c2 = fst (unsubscribe E c1 (subID sub) (unsubscribeMethod sub))
               in Some (c2\<lparr> subscriptionByRequestID := (subscriptionByRequestID c2)(ID (req sub) := None),
                            subscriptionByWSSubID := (subscriptionByWSSubID c2)(subID sub := None) \<rparr>)))"

text \<open>\<^verbatim>\<open>handleSubscriptionMessage\<close>\<close>

definition handleSubscriptionMessage ::
  "('p, 'v) env \<Rightarrow> ('p, 'v, 'c) Client \<Rightarrow> uint64 \<Rightarrow> bytes \<Rightarrow> ('p, 'v, 'c) Client option" where
  "handleSubscriptionMessage E c sid message =
     (case subscriptionByWSSubID c sid of
        None \<Rightarrow> Some c
      | Some a \<Rightarrow>
          let sub = heap c a in
          (case decoderFunc sub message of
             Inl e \<Rightarrow> closeSubscription E c (ID (req sub)) (UnableToDecodeClientResponse e)
           | Inr result \<Rightarrow>
               if length (stream sub) \<ge> stream_cap sub
               then closeSubscription E c (ID (req sub)) (ReachedChannelMaxCapacity (length (stream sub)))
               else Some (c\<lparr>heap := (heap c)(a := sub\<lparr>stream := stream sub @ [result]\<rparr>)\<rparr>)))"

text \<open>
  The last step of \<^verbatim>\<open>handleMessage\<close>: the sub-ID comes from the fast-path filter of
  the method when there is one and it finds an id, from \<^verbatim>\<open>params.subscription\<close>
  otherwise.
\<close>

definition routeBySubID ::
  "('p, 'v) env \<Rightarrow> ('p, 'v, 'c) Client \<Rightarrow> string \<Rightarrow> bytes \<Rightarrow> ('p, 'v, 'c) Client option" where
  "routeBySubID E c meth message =
     (let fast = (case subIDRetrievals c meth of
                    Some subIDRetrieval \<Rightarrow> subIDRetrieval message
                  | None \<Rightarrow> (0, False))
      in if snd fast then handleSubscriptionMessage E c (fst fast) message
         else handleSubscriptionMessage E c
                (fst (getUint64WithOk E message [''params'', ''subscription''])) message)"

text \<open>\<^verbatim>\<open>handleMessage\<close>\<close>

definition handleMessage ::
  "('p, 'v) env \<Rightarrow> ('p, 'v, 'c) Client \<Rightarrow> bytes \<Rightarrow> ('p, 'v, 'c) Client option" where
  "handleMessage E c message =
     (let result = (if length message < 128 then jsoniter_Unmarshal_ack E message else (0, 0)) in
      if length message < 128 \<and> fst result \<noteq> 0 \<and> snd result \<noteq> 0
      then Some (handleNewSubscriptionMessage c (fst result) (snd result))
      else
        (case jsonparser_GetString E message [''method''] of
           Inl e \<Rightarrow> Some c
         | Inr meth \<Rightarrow>
             if (case txDiscarders c meth of
                   Some txDiscarder \<Rightarrow> txDiscarder message | None \<Rightarrow> False)
             then Some c
             else
               (case sigRetrievals c meth of
                  None \<Rightarrow> routeBySubID E c meth message
                | Some sigRetrieval \<Rightarrow>
                    let sig = sigRetrieval message;
                        has = Has (sigCache c) (sigCache_state c) sig
                    in if fst has then Some (c\<lparr>sigCache_state := snd has\<rparr>)
                       else routeBySubID E
                              (c\<lparr>sigCache_state := Set (sigCache c) (snd has) sig\<rparr>)
                              meth message)))"

text \<open>The read loop hands each frame it reads to \<^verbatim>\<open>handleMessage\<close>, in order.\<close>

fun handleMessages ::
  "('p, 'v) env \<Rightarrow> ('p, 'v, 'c) Client \<Rightarrow> bytes list \<Rightarrow> ('p, 'v, 'c) Client option" where
  "handleMessages E c [] = Some c"
| "handleMessages E c (m # ms) =
     (case handleMessage E c m of None \<Rightarrow> None | Some c' \<Rightarrow> handleMessages E c' ms)"

text \<open>
  \<^verbatim>\<open>subscribe\<close>: the result (the address of the new entry, or the error) and the client
  after the call.
\<close>

definition subscribe ::
  "('p, 'v) env \<Rightarrow> ('p, 'v, 'c) Client \<Rightarrow> 'p iface list option \<Rightarrow> 'p option \<Rightarrow> string \<Rightarrow> string
     \<Rightarrow> (bytes \<Rightarrow> error + 'v) \<Rightarrow> (error + addr) \<times> ('p, 'v, 'c) Client" where
  "subscribe E c params conf subscriptionMethod unsubscribeMeth decoder =
     (let r = newRequest (mintID E) (minted c) params subscriptionMethod conf;
          c1 = c\<lparr>minted := minted c + 1\<rparr>
      in case encode E r of
           Inl e \<Rightarrow> (Inl (SubscribeUnableToEncode e), c1)
         | Inr data \<Rightarrow>
             let sub = newSubscription (streamCapacity E) (errCapacity E) r unsubscribeMeth decoder;
                 a = allocated c1;
                 c2 = c1\<lparr> heap := (heap c1)(a := sub), allocated := a + 1,
                          subscriptionByRequestID := (subscriptionByRequestID c1)(ID r \<mapsto> a) \<rparr>
             in (case WriteMessage (conn c2) data of
                   (cn, Some e) \<Rightarrow> (Inl (UnableToWriteRequest e), c2\<lparr>conn := cn\<rparr>)
                 | (cn, None) \<Rightarrow> (Inr a, c2\<lparr>conn := cn\<rparr>)))"

text \<open>
  \<^verbatim>\<open>decodeResponseFromMessage\<close>: the error returned, or the decoded reply. Reading
  through a nil pointer panics.
\<close>

definition decodeResponseFromMessage :: "('p, 'v) env \<Rightarrow> bytes \<Rightarrow> error + 'v" where
  "decodeResponseFromMessage E r =
     (case json_Unmarshal_response E r of
        Inl e \<Rightarrow> Inl e
      | Inr None \<Rightarrow> Inl NilPointerDereference
      | Inr (Some c) \<Rightarrow>
          (case resp_Error c of
             Some raw \<Rightarrow>
               (case json_Unmarshal_Error E raw of
                  Inl e \<Rightarrow> Inl (Json2Error E_SERVER raw None)
                | Inr (code, msg, data) \<Rightarrow> Inl (Json2Error code msg data))
           | None \<Rightarrow>
               (case resp_Params c of
                  None \<Rightarrow> Inl ErrNullResult
                | Some ps \<Rightarrow>
                    (case Result ps of
                       None \<Rightarrow> Inl NilPointerDereference
                     | Some res \<Rightarrow> json_Unmarshal_reply E res))))"

section \<open>Notions the properties are stated with\<close>

text \<open>The number a string of decimal digits denotes.\<close>

definition decimal_from :: "nat \<Rightarrow> bytes \<Rightarrow> nat" where
  "decimal_from a s = foldl (\<lambda>a c. 10 * a + digit_val c) a s"

definition decimal :: "bytes \<Rightarrow> nat" where
  "decimal s = decimal_from 0 s"

text \<open>
  A frame is taken for a subscribe ack when it is shorter than 128 bytes and the probe
  finds a non-zero id and a non-zero result.
\<close>

definition is_ack :: "('p, 'v) env \<Rightarrow> bytes \<Rightarrow> bool" where
  "is_ack E message \<longleftrightarrow>
     length message < 128 \<and> fst (jsoniter_Unmarshal_ack E message) \<noteq> 0 \<and>
     snd (jsoniter_Unmarshal_ack E message) \<noteq> 0"

text \<open>
  A frame reaches the signature de-dup step as a notification of method \<open>meth\<close> when it
  is not taken for an ack, its method is \<open>meth\<close>, and no discarder of the client drops
  it.
\<close>

definition reaches_dedup :: "('p, 'v) env \<Rightarrow> ('p, 'v, 'c) Client \<Rightarrow> string \<Rightarrow> bytes \<Rightarrow> bool" where
  "reaches_dedup E c meth message \<longleftrightarrow>
     \<not> is_ack E message \<and>
     jsonparser_GetString E message [''method''] = Inr meth \<and>
     (case txDiscarders c meth of Some txDiscarder \<Rightarrow> \<not> txDiscarder message | None \<Rightarrow> True)"

text \<open>
  A cache records membership faithfully when a signature that was set, or that the
  cache has, is still there after any further \<open>Set\<close> and \<open>Has\<close>.
\<close>

definition records_membership :: "'c LogsSignatureCache \<Rightarrow> bool" where
  "records_membership ca \<longleftrightarrow>
     (\<forall>st sig. fst (Has ca (Set ca st sig) sig)) \<and>
     (\<forall>st sig sig'. fst (Has ca st sig) \<longrightarrow> fst (Has ca (Set ca st sig') sig)) \<and>
     (\<forall>st sig sig'. fst (Has ca st sig) \<longrightarrow> fst (Has ca (snd (Has ca st sig')) sig))"

text \<open>
  Signature extraction misses on a payload that is too short for the range the
  filter of the method reads, or that has no \<^verbatim>\<open>"signature":"\<close> in that range.
\<close>

definition extraction_misses :: "string \<Rightarrow> bytes \<Rightarrow> bool" where
  "extraction_misses meth b \<longleftrightarrow>
     (meth = ''logsNotification'' \<and>
        (length b < 224 \<or> (\<nexists>p q. slice 96 224 b = p @ lit_signature @ q))) \<or>
     (meth = ''transactionNotification'' \<and>
        (length b < 128 \<or> (\<nexists>p q. drop (length b - 128) b = p @ lit_signature @ q)))"

text \<open>Two clients have the same signature cache and the same filter tables.\<close>

definition same_filters :: "('p, 'v, 'c) Client \<Rightarrow> ('p, 'v, 'c) Client \<Rightarrow> bool" where
  "same_filters c c' \<longleftrightarrow>
     sigCache c' = sigCache c \<and> sigCache_state c' = sigCache_state c \<and>
     sigRetrievals c' = sigRetrievals c \<and> txDiscarders c' = txDiscarders c \<and>
     subIDRetrievals c' = subIDRetrievals c"

text \<open>
  The registry is well formed when every entry of the request-ID index is indexed under
  the id of its own request, has room on its error channel and lies at an allocated
  address, and every entry of the subscription-ID index is indexed under its own
  subscription ID and is in the request-ID index.
\<close>

definition registry_wf :: "('p, 'v, 'c) Client \<Rightarrow> bool" where
  "registry_wf c \<longleftrightarrow>
     (\<forall>rid a. subscriptionByRequestID c rid = Some a \<longrightarrow>
        ID (req (heap c a)) = rid \<and> length (err (heap c a)) < err_cap (heap c a) \<and>
        a < allocated c) \<and>
     (\<forall>sid a. subscriptionByWSSubID c sid = Some a \<longrightarrow>
        subID (heap c a) = sid \<and> subscriptionByRequestID c (ID (req (heap c a))) = Some a)"

text \<open>
  The request-ID index is well formed when every entry of it is indexed under the id of
  its own request, has room on its error channel and lies at an allocated address.
\<close>

definition requests_wf :: "('p, 'v, 'c) Client \<Rightarrow> bool" where
  "requests_wf c \<longleftrightarrow>
     (\<forall>rid a. subscriptionByRequestID c rid = Some a \<longrightarrow>
        ID (req (heap c a)) = rid \<and> length (err (heap c a)) < err_cap (heap c a) \<and>
        a < allocated c)"

text \<open>
  A request is pending when its entry, if it has one, is not in the subscription-ID
  index: it has not been acknowledged.
\<close>

definition pending :: "('p, 'v, 'c) Client \<Rightarrow> uint64 \<Rightarrow> bool" where
  "pending c rid \<longleftrightarrow>
     (case subscriptionByRequestID c rid of
        None \<Rightarrow> True
      | Some a \<Rightarrow> \<forall>sid. subscriptionByWSSubID c sid \<noteq> Some a)"

section \<open>Example inputs\<close>

text \<open>
  A connection that accepts every write, and one that is broken. Options that set the
  two keepalive durations only.
\<close>

definition okConn :: Conn where
  "okConn = \<lparr> written = [], broken = None \<rparr>"

definition brokenConn :: Conn where
  "brokenConn = \<lparr> written = [], broken = Some (External ''write: broken pipe'') \<rparr>"

definition pingPongOpts :: "Duration \<Rightarrow> Duration \<Rightarrow> Options" where
  "pingPongOpts pong ping =
     \<lparr> HttpHeader = None, HandshakeTimeout = 0, PongWait = pong, PingPeriod = ping,
       UseSubIDRetrievals = False, DiscardFailedTxs = False \<rparr>"

text \<open>
  Frames as a node sends them: a subscribe ack, a second ack of the same request with
  another subscription ID, a Helius \<^verbatim>\<open>transactionNotification\<close>,
  a \<^verbatim>\<open>logsNotification\<close> of a successful transaction, one of a failed transaction, one
  of a failed transaction with a longer context, a \<^verbatim>\<open>logsNotification\<close> too short for
  the signature filter, and response bodies.
\<close>

definition ackFrame :: bytes where
  \<open>ackFrame = ''{"jsonrpc":"2.0","id":1,"result":42}''\<close>

definition reackFrame :: bytes where
  \<open>reackFrame = ''{"jsonrpc":"2.0","id":1,"result":43}''\<close>

definition txFrame :: bytes where
  \<open>txFrame = ''{"jsonrpc":"2.0","method":"transactionNotification","params":{"subscription":4743323479349712,"result":{"transaction":{"transaction":["AQAAAA","base64"],"meta":{"err":null,"fee":5000}},"signature":"5h6xBEauJ3PK6SWCZ1PGjBvj8vDdWG3KpwATGy1ARAXFSDwt8GFXM7W5Ncn16wmqokgpiKRLuS83KUxyZyv2sUYv"}}}''\<close>

definition logsFrame :: bytes where
  \<open>logsFrame = ''{"jsonrpc":"2.0","method":"logsNotification","params":{"result":{"context":{"slot":5208469},"value":{"signature":"5h6xBEauJ3PK6SWCZ1PGjBvj8vDdWG3KpwATGy1ARAXFSDwt8GFXM7W5Ncn16wmqokgpiKRLuS83KUxyZyv2sUYv","err":null,"logs":["Program 11111111111111111111111111111111 invoke [1]","Program 11111111111111111111111111111111 success"]}},"subscription":42}}''\<close>

definition failedLogsFrame :: bytes where
  \<open>failedLogsFrame = ''{"jsonrpc":"2.0","method":"logsNotification","params":{"result":{"context":{"slot":5208469},"value":{"signature":"5h6xBEauJ3PK6SWCZ1PGjBvj8vDdWG3KpwATGy1ARAXFSDwt8GFXM7W5Ncn16wmqokgpiKRLuS83KUxyZyv2sUYv","err":{"InstructionError":[2,{"Custom":6001}]},"logs":["Program 11111111111111111111111111111111 invoke [1]"]}},"subscription":42}}''\<close>

definition failedLogsFrameLongContext :: bytes where
  \<open>failedLogsFrameLongContext = ''{"jsonrpc":"2.0","method":"logsNotification","params":{"result":{"context":{"apiVersion":"1.18.9-jito.1","slot":281234567},"value":{"signature":"5h6xBEauJ3PK6SWCZ1PGjBvj8vDdWG3KpwATGy1ARAXFSDwt8GFXM7W5Ncn16wmqokgpiKRLuS83KUxyZyv2sUYv","err":{"InstructionError":[2,{"Custom":6001}]},"logs":["Program 11111111111111111111111111111111 invoke [1]"]}},"subscription":42}}''\<close>

definition shortLogsFrame :: bytes where
  \<open>shortLogsFrame = ''{"jsonrpc":"2.0","method":"logsNotification","params":{"result":{"context":{"slot":5208469},"value":{"signature":"1111111111111111111111111111111111111111111111111111111111111111","err":null,"logs":[]}},"subscription":42}}''\<close>

definition errorBody :: bytes where
  \<open>errorBody = ''{"jsonrpc":"2.0","error":{"code":-32602,"message":"Invalid params"},"id":1}''\<close>

definition stringErrorBody :: bytes where
  \<open>stringErrorBody = ''{"jsonrpc":"2.0","error":"overloaded","id":1}''\<close>

definition emptyBody :: bytes where
  \<open>emptyBody = ''{"jsonrpc":"2.0"}''\<close>

definition numberBody :: bytes where
  "numberBody = ''42''"

text \<open>
  An environment for these frames. Its JSON functions answer on the frames above what
  the libraries answer on them, and find nothing in any other input. The decoder of the
  example subscriptions returns the frame itself, and fails on a frame without
  \<^verbatim>\<open>"result"\<close>.
\<close>

definition frameMethod :: "bytes \<Rightarrow> error + string" where
  "frameMethod b =
     (if b = txFrame then Inr ''transactionNotification''
      else if b \<in> set [logsFrame, failedLogsFrame, failedLogsFrameLongContext, shortLogsFrame]
      then Inr ''logsNotification''
      else Inl (External ''Key path not found''))"

definition frameSubscription :: "bytes \<Rightarrow> error + (bytes \<times> ValueType)" where
  "frameSubscription b =
     (if b = txFrame then Inr (''4743323479349712'', Number)
      else if b \<in> set [logsFrame, failedLogsFrame, failedLogsFrameLongContext, shortLogsFrame]
      then Inr (''42'', Number)
      else Inl (External ''Key path not found''))"

definition exampleEnv :: "(unit, bytes) env" where
  \<open>exampleEnv =
     \<lparr> jsoniter_Unmarshal_ack =
         (\<lambda>b. if b = ackFrame then (1, 42) else if b = reackFrame then (1, 43) else (0, 0)),
       jsonparser_GetString =
         (\<lambda>b ks. if ks = [''method''] then frameMethod b
                  else Inl (External ''Key path not found'')),
       jsonparser_Get =
         (\<lambda>b ks. if ks = [''params'', ''subscription''] then frameSubscription b
                  else Inl (External ''Key path not found'')),
       json_Unmarshal_response =
         (\<lambda>b. if b = errorBody
               then Inr (Some \<lparr> resp_Params = None,
                                 resp_Error = Some ''{"code":-32602,"message":"Invalid params"}'' \<rparr>)
               else if b = stringErrorBody
               then Inr (Some \<lparr> resp_Params = None, resp_Error = Some ''"overloaded"'' \<rparr>)
               else if b = emptyBody
               then Inr (Some \<lparr> resp_Params = None, resp_Error = None \<rparr>)
               else Inl (External ''json: cannot unmarshal into Go value of type ws.response'')),
       json_Unmarshal_Error =
         (\<lambda>b. if b = ''{"code":-32602,"message":"Invalid params"}''
               then Inr (- 32602, ''Invalid params'', None)
               else Inl (External ''json: cannot unmarshal into Go value of type json2.Error'')),
       json_Unmarshal_reply = (\<lambda>b. Inr b),
       encode = (\<lambda>r. Inr (Method r)),
       mintID = (\<lambda>n. of_nat n + 1),
       streamCapacity = 1,
       errCapacity = 1,
       DefaultHandshakeTimeout = 45 * Second,
       SignatureFromBase58 = (\<lambda>b. replicate 64 1),
       DialContext = (\<lambda>d url h. Inr okConn) \<rparr>\<close>

definition frameDecoder :: "bytes \<Rightarrow> error + bytes" where
  \<open>frameDecoder b =
     (if snd (snd (bytes_Cut b ''"result"'')) then Inr b else Inl ErrNullResult)\<close>

text \<open>A cache that keeps the signatures it was given in a list.\<close>

definition listCache :: "Signature list LogsSignatureCache" where
  "listCache = \<lparr> Has = (\<lambda>st sig. (sig \<in> set st, st)), Set = (\<lambda>st sig. sig # st) \<rparr>"

text \<open>
  A client constructed with both filter options and the list cache, before any
  subscription.
\<close>

definition allOpts :: Options where
  "allOpts =
     \<lparr> HttpHeader = None, HandshakeTimeout = 0, PongWait = 0, PingPeriod = 0,
       UseSubIDRetrievals = True, DiscardFailedTxs = True \<rparr>"

definition freshClient :: "(unit, bytes, Signature list) Client" where
  "freshClient = projr (ConnectWithOptions exampleEnv ''ws://node'' (Some allOpts) (Some listCache) [])"

text \<open>
  The states of a client that subscribes to logs with request id 1 and is acknowledged
  with subscription id 42; and a client whose connection is broken.
\<close>

definition logsSubscription :: "(unit, bytes) Subscription" where
  "logsSubscription =
     newSubscription 1 1 \<lparr>ID = 1, Method = ''logsSubscribe'', Params = None\<rparr>
       ''logsUnsubscribe'' frameDecoder"

definition subscribedClient :: "(unit, bytes, Signature list) Client" where
  "subscribedClient =
     freshClient\<lparr> conn := okConn\<lparr>written := [''logsSubscribe'']\<rparr>,
                   subscriptionByRequestID := [1 \<mapsto> 0],
                   heap := (heap freshClient)(0 := logsSubscription),
                   allocated := 1, minted := 1 \<rparr>"

definition ackedClient :: "(unit, bytes, Signature list) Client" where
  "ackedClient =
     subscribedClient\<lparr> heap := (heap subscribedClient)(0 := logsSubscription\<lparr>subID := 42\<rparr>),
                        subscriptionByWSSubID := [42 \<mapsto> 0] \<rparr>"

definition brokenClient :: "(unit, bytes, Signature list) Client" where
  "brokenClient = freshClient\<lparr>conn := brokenConn\<rparr>"

text \<open>
  The acknowledged client after a \<^verbatim>\<open>logsNotification\<close> was delivered and stays unread in
  the stream of capacity 1; after a \<^verbatim>\<open>logsNotification\<close> too short for the signature
  filter was delivered instead; and after a \<^verbatim>\<open>transactionNotification\<close> for an unknown
  subscription followed that one.
\<close>

definition deliveredClient :: "(unit, bytes, Signature list) Client" where
  "deliveredClient =
     ackedClient\<lparr> heap := (heap ackedClient)
                      (0 := logsSubscription\<lparr>subID := 42, stream := [logsFrame]\<rparr>),
                   sigCache_state := [replicate 64 1] \<rparr>"

definition missedClient :: "(unit, bytes, Signature list) Client" where
  "missedClient =
     ackedClient\<lparr> heap := (heap ackedClient)
                      (0 := logsSubscription\<lparr>subID := 42, stream := [shortLogsFrame]\<rparr>),
                   sigCache_state := [zeroSignature] \<rparr>"

definition missedClient2 :: "(unit, bytes, Signature list) Client" where
  "missedClient2 = missedClient\<lparr>sigCache_state := [replicate 64 1, zeroSignature]\<rparr>"




section \<open>Facts about the library functions\<close>

lemma take_eq_length_le: "take (length p) s = p \<Longrightarrow> length p \<le> length s"
proof -
  assume h: "take (length p) s = p"
  have "length (take (length p) s) = min (length p) (length s)" by simp
  with h show ?thesis by simp
qed

lemma bytes_Index_Some_D:
  "bytes_Index s sep = Some i \<Longrightarrow>
     s = take i s @ sep @ drop (i + length sep) s \<and> i + length sep \<le> length s"
proof (induction s arbitrary: i)
  case Nil
  then show ?case by (auto split: if_splits)
next
  case (Cons x xs)
  show ?case
  proof (cases "take (length sep) (x # xs) = sep")
    case True
    with Cons.prems have i: "i = 0" by simp
    from True have "length sep \<le> length (x # xs)"
      by (rule take_eq_length_le)
    moreover have "x # xs = take (length sep) (x # xs) @ drop (length sep) (x # xs)"
      by (simp only: append_take_drop_id)
    ultimately show ?thesis using True i by simp
  next
    case False
    with Cons.prems obtain j where j: "bytes_Index xs sep = Some j" "i = Suc j"
      by auto
    from Cons.IH [OF j(1)] j(2) show ?thesis by simp
  qed
qed

lemma bytes_Index_first:
  "bytes_Index s sep = Some i \<Longrightarrow> s = p @ sep @ q \<Longrightarrow> i \<le> length p"
proof (induction s arbitrary: i p)
  case Nil
  then show ?case by (auto split: if_splits)
next
  case (Cons x xs)
  show ?case
  proof (cases "take (length sep) (x # xs) = sep")
    case True
    with Cons.prems(1) show ?thesis by simp
  next
    case False
    with Cons.prems(1) obtain j where j: "bytes_Index xs sep = Some j" "i = Suc j"
      by auto
    from False Cons.prems(2) have "p \<noteq> []" by auto
    then obtain p' where p': "p = x # p'" using Cons.prems(2) by (cases p) auto
    with Cons.prems(2) have "xs = p' @ sep @ q" by simp
    from Cons.IH [OF j(1) this] j(2) p' show ?thesis by simp
  qed
qed

lemma bytes_Index_None_iff:
  "bytes_Index s sep = None \<longleftrightarrow> (\<nexists>p q. s = p @ sep @ q)"
proof (induction s)
  case Nil
  then show ?case by auto
next
  case (Cons x xs)
  show ?case
  proof (cases "take (length sep) (x # xs) = sep")
    case True
    then have "x # xs = [] @ sep @ drop (length sep) (x # xs)"
      by (metis append_Nil append_take_drop_id)
    with True show ?thesis by (metis bytes_Index.simps(2) option.distinct(1))
  next
    case False
    have "(\<exists>p q. x # xs = p @ sep @ q) \<longleftrightarrow> (\<exists>p q. xs = p @ sep @ q)"
    proof
      assume "\<exists>p q. x # xs = p @ sep @ q"
      then obtain p q where pq: "x # xs = p @ sep @ q" by blast
      with False have "p \<noteq> []" by auto
      with pq show "\<exists>p q. xs = p @ sep @ q" by (cases p) auto
    next
      assume "\<exists>p q. xs = p @ sep @ q"
      then obtain p q where "xs = p @ sep @ q" by blast
      then have "x # xs = (x # p) @ sep @ q" by simp
      then show "\<exists>p q. x # xs = p @ sep @ q" by blast
    qed
    with False Cons.IH show ?thesis by simp
  qed
qed

lemma bytes_IndexAny_None_iff:
  "bytes_IndexAny s cs = None \<longleftrightarrow> set s \<inter> set cs = {}"
  by (induction s) auto

lemma bytes_IndexAny_Some_D:
  "bytes_IndexAny s cs = Some i \<Longrightarrow>
     i < length s \<and> s ! i \<in> set cs \<and> set (take i s) \<inter> set cs = {}"
  by (induction s arbitrary: i) (auto split: if_splits)

lemma bytes_IndexAny_decomp:
  "d \<in> set cs \<Longrightarrow> set tx \<inter> set cs = {} \<Longrightarrow>
     bytes_IndexAny (tx @ d # rest) cs = Some (length tx)"
  by (induction tx) auto

lemma bytes_Cut_found:
  assumes "s = pre @ sep @ after"
    and "\<forall>p q. s = p @ sep @ q \<longrightarrow> length pre \<le> length p"
  shows "bytes_Cut s sep = (pre, after, True)"
proof -
  from assms(1) have "bytes_Index s sep \<noteq> None"
    by (auto simp: bytes_Index_None_iff)
  then obtain i where i: "bytes_Index s sep = Some i" by auto
  from bytes_Index_first [OF i assms(1)] have le: "i \<le> length pre" .
  from bytes_Index_Some_D [OF i]
  have dec: "s = take i s @ sep @ drop (i + length sep) s" and "i + length sep \<le> length s"
    by simp_all
  then have "length (take i s) = i" by simp
  with assms(2) dec have "length pre \<le> i" by metis
  with le have "i = length pre" by simp
  with i assms(1) show ?thesis by (simp add: bytes_Cut_def)
qed

lemma bytes_Cut_absent:
  assumes "\<nexists>p q. s = p @ sep @ q"
  shows "bytes_Cut s sep = (s, [], False)"
proof -
  from assms have "bytes_Index s sep = None" by (simp add: bytes_Index_None_iff)
  then show ?thesis by (simp add: bytes_Cut_def)
qed


lemma decimal_from_simps [simp]:
  "decimal_from a [] = a"
  "decimal_from a (c # cs) = decimal_from (10 * a + digit_val c) cs"
  by (simp_all add: decimal_from_def)

lemma decimal_from_ge: "a \<le> decimal_from a cs"
proof (induction cs arbitrary: a)
  case Nil
  then show ?case by simp
next
  case (Cons c cs)
  have "a \<le> 10 * a + digit_val c" by simp
  also have "\<dots> \<le> decimal_from (10 * a + digit_val c) cs" by (rule Cons.IH)
  finally show ?case by simp
qed

lemma digit_val_le: "is_digit c \<Longrightarrow> digit_val c \<le> 9"
  unfolding is_digit_def digit_val_def by arith

lemma cutoff_le_iff: "cutoff \<le> n \<longleftrightarrow> 1844674407370955162 \<le> unat n"
  by (simp add: cutoff_def word_le_nat_alt)

lemma step_unat:
  fixes n :: uint64
  assumes "10 * unat n + d < 2 ^ 64"
  shows "unat (n * 10 + of_nat d) = 10 * unat n + d" and "n * 10 \<le> n * 10 + of_nat d"
proof -
  from assms have d: "d < 2 ^ 64" and n10: "10 * unat n < 2 ^ 64" by simp_all
  have u10: "unat (n * 10) = 10 * unat n"
    using n10 by (simp add: unat_word_ariths)
  have ud: "unat (of_nat d :: uint64) = d"
    using d by (simp add: unat_of_nat)
  from assms u10 ud have "unat (n * 10) + unat (of_nat d :: uint64) < 2 ^ LENGTH(64)"
    by simp
  then show "n * 10 \<le> n * 10 + of_nat d"
    by (simp only: no_olen_add_nat)
  from assms u10 ud show "unat (n * 10 + of_nat d) = 10 * unat n + d"
    by (simp add: unat_word_ariths)
qed

lemma parse_digits_ok:
  "\<forall>c\<in>set cs. is_digit c \<Longrightarrow> decimal_from (unat n) cs < 2 ^ 64 \<Longrightarrow>
     parse_digits n cs = Inr (of_nat (decimal_from (unat n) cs))"
proof (induction cs arbitrary: n)
  case Nil
  then show ?case by simp
next
  case (Cons c cs)
  let ?d = "digit_val c"
  have "10 * unat n + ?d \<le> decimal_from (10 * unat n + ?d) cs"
    by (rule decimal_from_ge)
  with Cons.prems(2) have small: "10 * unat n + ?d < 2 ^ 64" by simp
  then have nc: "\<not> cutoff \<le> n" by (simp add: cutoff_le_iff)
  from step_unat [OF small]
  have u: "unat (n * 10 + of_nat ?d) = 10 * unat n + ?d"
    and no: "\<not> n * 10 + of_nat ?d < n * 10" by (simp_all add: not_less)
  from Cons.prems have "parse_digits (n * 10 + of_nat ?d) cs =
      Inr (of_nat (decimal_from (unat (n * 10 + of_nat ?d)) cs))"
    by (intro Cons.IH) (simp_all add: u)
  with Cons.prems(1) nc no u show ?case by (simp add: Let_def)
qed

lemma parse_digits_Inr_D:
  "parse_digits n cs = Inr m \<Longrightarrow>
     (\<forall>c\<in>set cs. is_digit c) \<and> decimal_from (unat n) cs < 2 ^ 64 \<and>
     m = of_nat (decimal_from (unat n) cs)"
proof (induction cs arbitrary: n)
  case Nil
  then show ?case using unsigned_less [of n, where 'a = nat] by simp
next
  case (Cons c cs)
  let ?d = "digit_val c"
  from Cons.prems have dig: "is_digit c" and nc: "\<not> cutoff \<le> n"
    and no: "\<not> n * 10 + of_nat ?d < n * 10"
    and rec: "parse_digits (n * 10 + of_nat ?d) cs = Inr m"
    by (auto simp: Let_def split: if_splits)
  from nc have n10: "10 * unat n < 2 ^ 64" by (simp add: cutoff_le_iff)
  then have u10: "unat (n * 10) = 10 * unat n" by (simp add: unat_word_ariths)
  from digit_val_le [OF dig] have ud: "unat (of_nat ?d :: uint64) = ?d"
    by (simp add: unat_of_nat)
  from no have "n * 10 \<le> n * 10 + of_nat ?d" by simp
  then have "unat (n * 10) + unat (of_nat ?d :: uint64) < 2 ^ LENGTH(64)"
    by (simp only: no_olen_add_nat)
  with u10 ud have small: "10 * unat n + ?d < 2 ^ 64" by simp
  from step_unat(1) [OF small] Cons.IH [OF rec] dig show ?case by simp
qed

lemma strconv_ParseUint_iff:
  "strconv_ParseUint s = Inr m \<longleftrightarrow>
     s \<noteq> [] \<and> (\<forall>c\<in>set s. is_digit c) \<and> decimal s < 2 ^ 64 \<and> m = of_nat (decimal s)"
proof
  assume "strconv_ParseUint s = Inr m"
  then have "s \<noteq> []" "parse_digits 0 s = Inr m"
    by (auto simp: strconv_ParseUint_def split: if_splits)
  with parse_digits_Inr_D [of 0 s m] show "s \<noteq> [] \<and> (\<forall>c\<in>set s. is_digit c) \<and> decimal s < 2 ^ 64 \<and> m = of_nat (decimal s)"
    by (simp add: decimal_def)
next
  assume "s \<noteq> [] \<and> (\<forall>c\<in>set s. is_digit c) \<and> decimal s < 2 ^ 64 \<and> m = of_nat (decimal s)"
  with parse_digits_ok [of s 0] show "strconv_ParseUint s = Inr m"
    by (simp add: strconv_ParseUint_def decimal_def)
qed

lemma strconv_ParseUint_cases:
  "strconv_ParseUint s =
     (if s \<noteq> [] \<and> (\<forall>c\<in>set s. is_digit c) \<and> decimal s < 2 ^ 64
      then Inr (of_nat (decimal s)) else Inl (projl (strconv_ParseUint s)))"
proof (cases "strconv_ParseUint s")
  case (Inl e)
  then show ?thesis using strconv_ParseUint_iff [of s] by auto
next
  case (Inr m)
  then show ?thesis using strconv_ParseUint_iff [of s m] by auto
qed

section \<open>Facts about durations\<close>

lemma const_pongWait_eq: "const_pongWait = 60 * Second"
  by (simp add: const_pongWait_def)

lemma const_pingPeriod_eq: "const_pingPeriod = 54 * Second"
  by (simp add: const_pingPeriod_def const_pongWait_def Second_def duration_div_def
      signed_divide_int_def)

lemma sdiv10_bounds:
  fixes k :: int
  assumes "- 9223372036854775808 \<le> k" "k < 9223372036854775808"
  shows "k sdiv 10 \<le> 922337203685477580 \<and> - 922337203685477580 \<le> k sdiv 10"
proof (cases "0 \<le> k")
  case True
  then have "k sdiv 10 = k div 10"
    by (simp add: signed_divide_int_def sgn_if)
  moreover from assms have "k div 10 \<le> 9223372036854775807 div 10"
    by (intro zdiv_mono1) simp_all
  moreover from True have "0 \<le> k div 10" by (simp add: pos_imp_zdiv_nonneg_iff)
  ultimately show ?thesis by simp
next
  case False
  then have "k sdiv 10 = - ((- k) div 10)"
    by (simp add: signed_divide_int_def sgn_if)
  moreover from assms have "(- k) div 10 \<le> 9223372036854775808 div 10"
    by (intro zdiv_mono1) simp_all
  moreover from False have "0 \<le> (- k) div 10" by (simp add: pos_imp_zdiv_nonneg_iff)
  ultimately show ?thesis by simp
qed

lemma sint_sdiv10_bounds:
  fixes x :: "64 word"
  shows "sint x sdiv 10 \<le> 922337203685477580" and "- 922337203685477580 \<le> sint x sdiv 10"
  using sdiv10_bounds [of "sint x"] sint_lt [of x] sint_ge [of x] by simp_all

lemma sint_duration_div10: "sint (duration_div x 10) = sint x sdiv 10"
proof -
  from sint_sdiv10_bounds [of x]
  have "- (2 ^ 63) \<le> sint x sdiv 10" "sint x sdiv 10 < 2 ^ 63" by simp_all
  then show ?thesis
    unfolding duration_div_def
    by (simp add: sint_sbintrunc' signed_take_bit_int_eq_self)
qed

lemma derived_lt:
  fixes pw :: Duration
  assumes "0 <s pw"
  shows "duration_div (pw * 9) 10 <s pw"
proof -
  from assms have pos: "0 < sint pw" by (simp add: word_sless_alt)
  have lt: "sint pw < 2 ^ 63" using sint_lt [of pw] by simp
  show ?thesis
  proof (cases "9 * sint pw < 2 ^ 63")
    case True
    with pos have "sint (pw * 9) = sint pw * 9"
      by (simp add: sint_word_ariths signed_take_bit_int_eq_self)
    with pos have "sint (pw * 9) sdiv 10 < sint pw"
      by (simp add: signed_divide_int_def sgn_if)
    then show ?thesis by (simp add: word_sless_alt sint_duration_div10)
  next
    case False
    then have "922337203685477580 < sint pw" by simp
    with sint_sdiv10_bounds(1) [of "pw * 9"] show ?thesis
      by (simp add: word_sless_alt sint_duration_div10)
  qed
qed

lemma derived_exact:
  fixes pw :: Duration
  assumes "0 <s pw" "9 * sint pw < 2 ^ 63"
  shows "sint (duration_div (pw * 9) 10) = (9 * sint pw) div 10"
proof -
  from assms have pos: "0 < sint pw" by (simp add: word_sless_alt)
  with assms(2) have "sint (pw * 9) = sint pw * 9"
    by (simp add: sint_word_ariths signed_take_bit_int_eq_self)
  with pos show ?thesis
    by (simp add: sint_duration_div10 signed_divide_int_def sgn_if mult.commute)
qed

section \<open>Facts about the operations\<close>

lemma unsubscribe_fields:
  "heap (fst (unsubscribe E c sid m)) = heap c \<and>
   subscriptionByRequestID (fst (unsubscribe E c sid m)) = subscriptionByRequestID c \<and>
   subscriptionByWSSubID (fst (unsubscribe E c sid m)) = subscriptionByWSSubID c \<and>
   same_filters c (fst (unsubscribe E c sid m))"
  by (simp add: unsubscribe_def Let_def WriteMessage_def same_filters_def
      split: sum.splits option.splits prod.splits)

lemma closeSubscription_registered:
  assumes "subscriptionByRequestID c rid = Some a"
    and "length (err (heap c a)) < err_cap (heap c a)"
  shows "\<exists>c'. closeSubscription E c rid e = Some c' \<and>
           heap c' = (heap c)(a := (heap c a)\<lparr>err := err (heap c a) @ [e]\<rparr>) \<and>
           subscriptionByRequestID c' = (subscriptionByRequestID c)(ID (req (heap c a)) := None) \<and>
           subscriptionByWSSubID c' = (subscriptionByWSSubID c)(subID (heap c a) := None) \<and>
           same_filters c c'"
proof -
  let ?sub = "heap c a"
  let ?c1 = "c\<lparr>heap := (heap c)(a := ?sub\<lparr>err := err ?sub @ [e]\<rparr>)\<rparr>"
  let ?c2 = "fst (unsubscribe E ?c1 (subID ?sub) (unsubscribeMethod ?sub))"
  let ?c' = "?c2\<lparr> subscriptionByRequestID := (subscriptionByRequestID ?c2)(ID (req ?sub) := None),
                   subscriptionByWSSubID := (subscriptionByWSSubID ?c2)(subID ?sub := None) \<rparr>"
  from assms have "closeSubscription E c rid e = Some ?c'"
    by (simp add: closeSubscription_def chan_send_def Let_def)
  moreover from unsubscribe_fields [of E ?c1 "subID ?sub" "unsubscribeMethod ?sub"]
  have "heap ?c' = (heap c)(a := ?sub\<lparr>err := err ?sub @ [e]\<rparr>) \<and>
        subscriptionByRequestID ?c' = (subscriptionByRequestID c)(ID (req ?sub) := None) \<and>
        subscriptionByWSSubID ?c' = (subscriptionByWSSubID c)(subID ?sub := None) \<and>
        same_filters c ?c'"
    by (simp add: same_filters_def)
  ultimately show ?thesis by blast
qed

lemma closeSubscription_same_filters:
  "closeSubscription E c rid e = Some c' \<Longrightarrow> same_filters c c'"
proof (cases "subscriptionByRequestID c rid")
  case None
  assume "closeSubscription E c rid e = Some c'"
  with None show ?thesis by (simp add: closeSubscription_def same_filters_def)
next
  case (Some a)
  assume h: "closeSubscription E c rid e = Some c'"
  with Some have "length (err (heap c a)) < err_cap (heap c a)"
    by (auto simp: closeSubscription_def chan_send_def Let_def split: if_splits)
  from closeSubscription_registered [OF Some this, of E e] h show ?thesis by auto
qed

lemma handleSubscriptionMessage_same_filters:
  "handleSubscriptionMessage E c sid message = Some c' \<Longrightarrow> same_filters c c'"
  by (auto simp: handleSubscriptionMessage_def Let_def same_filters_def
      split: option.splits sum.splits if_splits
      dest!: closeSubscription_same_filters)

lemma routeBySubID_same_filters:
  "routeBySubID E c m message = Some c' \<Longrightarrow> same_filters c c'"
  by (auto simp: routeBySubID_def Let_def split: if_splits
      dest: handleSubscriptionMessage_same_filters)

lemma freshClient_eq:
  "freshClient =
     \<lparr> rpcURL = ''ws://node'', conn = okConn,
       subscriptionByRequestID = Map.empty, subscriptionByWSSubID = Map.empty,
       heap = (\<lambda>a. unallocated),
       allocated = 0, minted = 0,
       pongWait = const_pongWait, pingPeriod = const_pingPeriod,
       subIDRetrievals = defaultSubIDRetrievals,
       txDiscarders = defaultTxDiscarders,
       sigRetrievals = defaultSigRetrievals (\<lambda>b. replicate 64 1),
       sigCache = listCache, sigCache_state = [] \<rparr>"
  by (simp add: freshClient_def ConnectWithOptions_def exampleEnv_def allOpts_def Let_def)



lemma decodeResponseFromMessage_nil_result:
  assumes "json_Unmarshal_response E r = Inr (Some c)" and "resp_Error c = None"
    and "resp_Params c = Some ps" and "Result ps = None"
  shows "decodeResponseFromMessage E r = Inl NilPointerDereference"
  using assms by (simp add: decodeResponseFromMessage_def)

lemma handleNewSubscriptionMessage_same_filters:
  "same_filters c (handleNewSubscriptionMessage c rid sid)"
  by (simp add: handleNewSubscriptionMessage_def same_filters_def split: option.splits)

lemma reaches_dedup_unfold:
  assumes "reaches_dedup E c meth message" and "sigRetrievals c meth = Some retr"
  shows "handleMessage E c message =
           (let has = Has (sigCache c) (sigCache_state c) (retr message)
            in if fst has then Some (c\<lparr>sigCache_state := snd has\<rparr>)
               else routeBySubID E (c\<lparr>sigCache_state := Set (sigCache c) (snd has) (retr message)\<rparr>)
                      meth message)"
proof -
  from assms(1) have na: "length message < 128 \<Longrightarrow>
      fst (jsoniter_Unmarshal_ack E message) = 0 \<or> snd (jsoniter_Unmarshal_ack E message) = 0"
    by (auto simp: reaches_dedup_def is_ack_def)
  from assms(1) have m: "jsonparser_GetString E message [''method''] = Inr meth"
    and nd: "\<not> (case txDiscarders c meth of Some txDiscarder \<Rightarrow> txDiscarder message | None \<Rightarrow> False)"
    by (auto simp: reaches_dedup_def split: option.splits)
  show ?thesis
  proof (cases "length message < 128")
    case True
    with na m nd assms(2) show ?thesis
      by (auto simp: handleMessage_def Let_def)
  next
    case False
    with m nd assms(2) show ?thesis
      by (simp add: handleMessage_def Let_def)
  qed
qed

lemma extraction_misses_zero:
  assumes "extraction_misses meth b"
  shows "\<exists>retr. defaultSigRetrievals f meth = Some retr \<and> retr b = zeroSignature"
proof -
  from assms consider
      (logs) "meth = ''logsNotification''"
        "length b < 224 \<or> (\<nexists>p q. slice 96 224 b = p @ lit_signature @ q)"
    | (tx) "meth = ''transactionNotification''"
        "length b < 128 \<or> (\<nexists>p q. drop (length b - 128) b = p @ lit_signature @ q)"
    by (auto simp: extraction_misses_def)
  then show ?thesis
  proof cases
    case logs
    have "logsNotification_signature f b = zeroSignature"
    proof (cases "length b < 224")
      case True
      then show ?thesis by (simp add: logsNotification_signature_def)
    next
      case False
      with logs(2) have "\<nexists>p q. slice 96 224 b = p @ lit_signature @ q" by simp
      from bytes_Cut_absent [OF this] show ?thesis
        by (simp add: logsNotification_signature_def Let_def)
    qed
    with logs(1) show ?thesis by (simp add: defaultSigRetrievals_def)
  next
    case tx
    have "transactionNotification_signature f b = zeroSignature"
    proof (cases "length b < 128")
      case True
      then show ?thesis by (simp add: transactionNotification_signature_def)
    next
      case False
      with tx(2) have "\<nexists>p q. drop (length b - 128) b = p @ lit_signature @ q" by simp
      from bytes_Cut_absent [OF this] False show ?thesis
        by (simp add: transactionNotification_signature_def Let_def nat_diff_distrib)
    qed
    with tx(1) show ?thesis by (simp add: defaultSigRetrievals_def)
  qed
qed

lemma handleMessage_keeps_signatures:
  assumes "handleMessage E c message = Some c'" and "records_membership (sigCache c)"
  shows "sigCache c' = sigCache c \<and> sigRetrievals c' = sigRetrievals c \<and>
         (\<forall>sig. fst (Has (sigCache c) (sigCache_state c) sig) \<longrightarrow>
                fst (Has (sigCache c) (sigCache_state c') sig))"
proof (cases "is_ack E message")
  case True
  with assms(1) have "c' = handleNewSubscriptionMessage c
      (fst (jsoniter_Unmarshal_ack E message)) (snd (jsoniter_Unmarshal_ack E message))"
    by (auto simp: handleMessage_def is_ack_def Let_def)
  with handleNewSubscriptionMessage_same_filters [of c] show ?thesis
    by (simp add: same_filters_def)
next
  case na: False
  show ?thesis
  proof (cases "jsonparser_GetString E message [''method'']")
    case (Inl e)
    with na assms(1) have "c' = c"
      by (auto simp: handleMessage_def is_ack_def Let_def split: if_splits)
    then show ?thesis by simp
  next
    case (Inr meth)
    show ?thesis
    proof (cases "case txDiscarders c meth of Some txDiscarder \<Rightarrow> txDiscarder message | None \<Rightarrow> False")
      case True
      with na Inr assms(1) have "c' = c"
        by (auto simp: handleMessage_def is_ack_def Let_def split: if_splits)
      then show ?thesis by simp
    next
      case nd: False
      show ?thesis
      proof (cases "sigRetrievals c meth")
        case None
        with na Inr nd assms(1) have "routeBySubID E c meth message = Some c'"
          by (auto simp: handleMessage_def is_ack_def Let_def split: if_splits)
        from routeBySubID_same_filters [OF this] show ?thesis
          by (simp add: same_filters_def)
      next
        case (Some retr)
        let ?sig = "retr message"
        let ?has = "Has (sigCache c) (sigCache_state c) ?sig"
        from na Inr nd have stage: "reaches_dedup E c meth message"
          by (auto simp: reaches_dedup_def split: option.splits)
        show ?thesis
        proof (cases "fst ?has")
          case True
          with reaches_dedup_unfold [OF stage Some] assms(1)
          have "c' = c\<lparr>sigCache_state := snd ?has\<rparr>" by (simp add: Let_def)
          with assms(2) show ?thesis by (auto simp: records_membership_def)
        next
          case False
          let ?c1 = "c\<lparr>sigCache_state := Set (sigCache c) (snd ?has) ?sig\<rparr>"
          from False reaches_dedup_unfold [OF stage Some] assms(1)
          have "routeBySubID E ?c1 meth message = Some c'" by (simp add: Let_def)
          from routeBySubID_same_filters [OF this]
          have eq: "sigCache c' = sigCache c" "sigRetrievals c' = sigRetrievals c"
            "sigCache_state c' = Set (sigCache c) (snd ?has) ?sig"
            by (simp_all add: same_filters_def)
          from assms(2) have "\<forall>sig. fst (Has (sigCache c) (sigCache_state c) sig) \<longrightarrow>
              fst (Has (sigCache c) (Set (sigCache c) (snd ?has) ?sig) sig)"
            unfolding records_membership_def by blast
          with eq show ?thesis by simp
        qed
      qed
    qed
  qed
qed

lemma handleMessages_keeps_signatures:
  assumes "handleMessages E c ms = Some c'" and "records_membership (sigCache c)"
  shows "sigCache c' = sigCache c \<and> sigRetrievals c' = sigRetrievals c \<and>
         (\<forall>sig. fst (Has (sigCache c) (sigCache_state c) sig) \<longrightarrow>
                fst (Has (sigCache c) (sigCache_state c') sig))"
  using assms
proof (induction ms arbitrary: c)
  case Nil
  then show ?case by simp
next
  case (Cons m ms)
  from Cons.prems(1) obtain c1 where c1: "handleMessage E c m = Some c1"
    "handleMessages E c1 ms = Some c'"
    by (auto split: option.splits)
  from handleMessage_keeps_signatures [OF c1(1) Cons.prems(2)]
  have k1: "sigCache c1 = sigCache c" "sigRetrievals c1 = sigRetrievals c"
    "\<forall>sig. fst (Has (sigCache c) (sigCache_state c) sig) \<longrightarrow>
           fst (Has (sigCache c) (sigCache_state c1) sig)"
    by simp_all
  from Cons.prems(2) k1(1) have "records_membership (sigCache c1)" by simp
  from Cons.IH [OF c1(2) this] k1 show ?case by simp
qed

section \<open>The registry invariant\<close>

text \<open>
  A client is constructed with a well-formed registry. The registry stays well formed
  when \<^verbatim>\<open>subscribe\<close> mints an id that is not in use and the error channel has a slot, and
  when a frame is handled, provided that an ack answers a pending request; and on a
  well-formed registry \<^verbatim>\<open>handleMessage\<close> returns: the send on the error channel does not
  block.
\<close>

lemma registry_wf_live:
  assumes "registry_wf c" and "subscriptionByWSSubID c sid = Some a"
  shows "subscriptionByRequestID c (ID (req (heap c a))) = Some a \<and>
         subID (heap c a) = sid \<and> length (err (heap c a)) < err_cap (heap c a)"
  using assms unfolding registry_wf_def by blast

lemma registry_wf_ConnectWithOptions:
  "ConnectWithOptions E url opt cache st = Inr c \<Longrightarrow> registry_wf c"
  by (auto simp: ConnectWithOptions_def Let_def registry_wf_def split: sum.splits)

lemma registry_wf_subscribe:
  assumes wf: "registry_wf c"
    and fresh: "subscriptionByRequestID c (mintID E (minted c)) = None"
    and cap: "0 < errCapacity E"
  shows "registry_wf (snd (subscribe E c params conf m um dec))"
proof (cases "encode E (newRequest (mintID E) (minted c) params m conf)")
  case (Inl e)
  with wf show ?thesis
    by (simp add: subscribe_def Let_def registry_wf_def)
next
  case (Inr data)
  let ?r = "newRequest (mintID E) (minted c) params m conf"
  let ?a = "allocated c"
  let ?c' = "snd (subscribe E c params conf m um dec)"
  have rid: "ID ?r = mintID E (minted c)" by (simp add: newRequest_def)
  from Inr have
    req': "subscriptionByRequestID ?c' = (subscriptionByRequestID c)(ID ?r \<mapsto> ?a)"
    and sub': "subscriptionByWSSubID ?c' = subscriptionByWSSubID c"
    and heap': "heap ?c' = (heap c)(?a := newSubscription (streamCapacity E) (errCapacity E) ?r um dec)"
    and al': "allocated ?c' = Suc ?a"
    by (simp_all add: subscribe_def Let_def WriteMessage_def split: option.splits)
  from wf have old: "\<And>rid a. subscriptionByRequestID c rid = Some a \<Longrightarrow>
      ID (req (heap c a)) = rid \<and> length (err (heap c a)) < err_cap (heap c a) \<and> a < ?a"
    and olds: "\<And>sid a. subscriptionByWSSubID c sid = Some a \<Longrightarrow>
      subID (heap c a) = sid \<and> subscriptionByRequestID c (ID (req (heap c a))) = Some a"
    unfolding registry_wf_def by blast+
  show ?thesis
    unfolding registry_wf_def
  proof (rule conjI; intro allI impI)
    fix rid a
    assume h: "subscriptionByRequestID ?c' rid = Some a"
    show "ID (req (heap ?c' a)) = rid \<and> length (err (heap ?c' a)) < err_cap (heap ?c' a) \<and>
          a < allocated ?c'"
    proof (cases "rid = ID ?r")
      case True
      with h req' have "a = ?a" by simp
      with True cap heap' al' show ?thesis by (simp add: newSubscription_def)
    next
      case False
      with h req' have "subscriptionByRequestID c rid = Some a" by simp
      from old [OF this] heap' al' show ?thesis by simp
    qed
  next
    fix sid a
    assume "subscriptionByWSSubID ?c' sid = Some a"
    with sub' have s: "subscriptionByWSSubID c sid = Some a" by simp
    from olds [OF s] have k: "subID (heap c a) = sid"
      and r: "subscriptionByRequestID c (ID (req (heap c a))) = Some a" by simp_all
    from old [OF r] have lt: "a < ?a" by simp
    from r fresh rid have "ID (req (heap c a)) \<noteq> ID ?r" by auto
    with k r lt heap' req'
    show "subID (heap ?c' a) = sid \<and>
          subscriptionByRequestID ?c' (ID (req (heap ?c' a))) = Some a"
      by simp
  qed
qed

lemma registry_wf_ack:
  assumes wf: "registry_wf c" and p: "pending c rid"
  shows "registry_wf (handleNewSubscriptionMessage c rid sid)"
proof (cases "subscriptionByRequestID c rid")
  case None
  with wf show ?thesis by (simp add: handleNewSubscriptionMessage_def)
next
  case (Some a)
  let ?c' = "handleNewSubscriptionMessage c rid sid"
  from Some have
    req': "subscriptionByRequestID ?c' = subscriptionByRequestID c"
    and sub': "subscriptionByWSSubID ?c' = (subscriptionByWSSubID c)(sid \<mapsto> a)"
    and heap': "heap ?c' = (heap c)(a := (heap c a)\<lparr>subID := sid\<rparr>)"
    and al': "allocated ?c' = allocated c"
    by (simp_all add: handleNewSubscriptionMessage_def)
  from p Some have notin: "\<And>sid'. subscriptionByWSSubID c sid' \<noteq> Some a"
    by (simp add: pending_def)
  from wf have old: "\<And>rid a. subscriptionByRequestID c rid = Some a \<Longrightarrow>
      ID (req (heap c a)) = rid \<and> length (err (heap c a)) < err_cap (heap c a) \<and> a < allocated c"
    and olds: "\<And>sid a. subscriptionByWSSubID c sid = Some a \<Longrightarrow>
      subID (heap c a) = sid \<and> subscriptionByRequestID c (ID (req (heap c a))) = Some a"
    unfolding registry_wf_def by blast+
  show ?thesis
    unfolding registry_wf_def
  proof (rule conjI; intro allI impI)
    fix rid' a'
    assume "subscriptionByRequestID ?c' rid' = Some a'"
    with req' have "subscriptionByRequestID c rid' = Some a'" by simp
    from old [OF this] heap' al'
    show "ID (req (heap ?c' a')) = rid' \<and> length (err (heap ?c' a')) < err_cap (heap ?c' a') \<and>
          a' < allocated ?c'"
      by auto
  next
    fix sid' a'
    assume h: "subscriptionByWSSubID ?c' sid' = Some a'"
    show "subID (heap ?c' a') = sid' \<and>
          subscriptionByRequestID ?c' (ID (req (heap ?c' a'))) = Some a'"
    proof (cases "sid' = sid")
      case True
      with h sub' have "a' = a" by simp
      with True old [OF Some] Some heap' req' show ?thesis by simp
    next
      case False
      with h sub' have s: "subscriptionByWSSubID c sid' = Some a'" by simp
      with notin have "a' \<noteq> a" by auto
      with olds [OF s] heap' req' show ?thesis by simp
    qed
  qed
qed

lemma registry_wf_closeSubscription:
  assumes wf: "registry_wf c"
  shows "\<exists>c'. closeSubscription E c rid e = Some c' \<and> registry_wf c'"
proof (cases "subscriptionByRequestID c rid")
  case None
  with wf show ?thesis by (simp add: closeSubscription_def)
next
  case (Some a)
  from wf have old: "\<And>rid a. subscriptionByRequestID c rid = Some a \<Longrightarrow>
      ID (req (heap c a)) = rid \<and> length (err (heap c a)) < err_cap (heap c a) \<and> a < allocated c"
    and olds: "\<And>sid a. subscriptionByWSSubID c sid = Some a \<Longrightarrow>
      subID (heap c a) = sid \<and> subscriptionByRequestID c (ID (req (heap c a))) = Some a"
    unfolding registry_wf_def by blast+
  from old [OF Some] have ida: "ID (req (heap c a)) = rid"
    and room: "length (err (heap c a)) < err_cap (heap c a)" by simp_all
  from closeSubscription_registered [OF Some room, of E e]
  obtain c' where c': "closeSubscription E c rid e = Some c'"
    and heap': "heap c' = (heap c)(a := (heap c a)\<lparr>err := err (heap c a) @ [e]\<rparr>)"
    and req': "subscriptionByRequestID c' = (subscriptionByRequestID c)(ID (req (heap c a)) := None)"
    and sub': "subscriptionByWSSubID c' = (subscriptionByWSSubID c)(subID (heap c a) := None)"
    by blast
  have al': "allocated c' = allocated c"
    using c' Some room
    by (auto simp: closeSubscription_def chan_send_def Let_def unsubscribe_def WriteMessage_def
        split: sum.splits option.splits prod.splits)
  have "registry_wf c'"
    unfolding registry_wf_def
  proof (rule conjI; intro allI impI)
    fix rid' a'
    assume "subscriptionByRequestID c' rid' = Some a'"
    with req' ida have ne: "rid' \<noteq> rid" and r: "subscriptionByRequestID c rid' = Some a'"
      by (auto split: if_splits)
    from old [OF r] ne ida have "a' \<noteq> a" by auto
    with old [OF r] heap' al'
    show "ID (req (heap c' a')) = rid' \<and> length (err (heap c' a')) < err_cap (heap c' a') \<and>
          a' < allocated c'"
      by simp
  next
    fix sid' a'
    assume "subscriptionByWSSubID c' sid' = Some a'"
    with sub' have ne: "sid' \<noteq> subID (heap c a)" and s: "subscriptionByWSSubID c sid' = Some a'"
      by (auto split: if_splits)
    from olds [OF s] ne have na: "a' \<noteq> a" by auto
    from olds [OF s] have r: "subscriptionByRequestID c (ID (req (heap c a'))) = Some a'" by simp
    from r Some na ida have "ID (req (heap c a')) \<noteq> ID (req (heap c a))" by auto
    with olds [OF s] na heap' req'
    show "subID (heap c' a') = sid' \<and>
          subscriptionByRequestID c' (ID (req (heap c' a'))) = Some a'"
      by simp
  qed
  with c' show ?thesis by blast
qed

lemma registry_wf_handleSubscriptionMessage:
  assumes wf: "registry_wf c"
  shows "\<exists>c'. handleSubscriptionMessage E c sid message = Some c' \<and> registry_wf c'"
proof (cases "subscriptionByWSSubID c sid")
  case None
  with wf show ?thesis by (simp add: handleSubscriptionMessage_def)
next
  case (Some a)
  show ?thesis
  proof (cases "decoderFunc (heap c a) message")
    case (Inl e)
    with Some registry_wf_closeSubscription [OF wf] show ?thesis
      by (simp add: handleSubscriptionMessage_def Let_def)
  next
    case (Inr v)
    show ?thesis
    proof (cases "stream_cap (heap c a) \<le> length (stream (heap c a))")
      case True
      with Some Inr registry_wf_closeSubscription [OF wf] show ?thesis
        by (simp add: handleSubscriptionMessage_def Let_def)
    next
      case False
      let ?c' = "c\<lparr>heap := (heap c)(a := (heap c a)\<lparr>stream := stream (heap c a) @ [v]\<rparr>)\<rparr>"
      from False Some Inr have "handleSubscriptionMessage E c sid message = Some ?c'"
        by (simp add: handleSubscriptionMessage_def Let_def)
      moreover from wf have "registry_wf ?c'"
        by (simp add: registry_wf_def)
      ultimately show ?thesis by blast
    qed
  qed
qed

lemma registry_wf_handleMessage:
  assumes wf: "registry_wf c"
    and acks: "is_ack E message \<Longrightarrow> pending c (fst (jsoniter_Unmarshal_ack E message))"
  shows "\<exists>c'. handleMessage E c message = Some c' \<and> registry_wf c'"
proof (cases "is_ack E message")
  case True
  then have "handleMessage E c message = Some (handleNewSubscriptionMessage c
      (fst (jsoniter_Unmarshal_ack E message)) (snd (jsoniter_Unmarshal_ack E message)))"
    by (simp add: handleMessage_def is_ack_def Let_def)
  with registry_wf_ack [OF wf acks [OF True]] show ?thesis by simp
next
  case False
  have wf_cache: "\<And>st. registry_wf (c\<lparr>sigCache_state := st\<rparr>)"
    using wf by (simp add: registry_wf_def)
  have route: "\<And>c0 meth. registry_wf c0 \<Longrightarrow>
      \<exists>c'. routeBySubID E c0 meth message = Some c' \<and> registry_wf c'"
    by (simp add: routeBySubID_def Let_def registry_wf_handleSubscriptionMessage)
  from False have na: "\<not> (length message < 128 \<and>
      fst (if length message < 128 then jsoniter_Unmarshal_ack E message else (0, 0)) \<noteq> 0 \<and>
      snd (if length message < 128 then jsoniter_Unmarshal_ack E message else (0, 0)) \<noteq> 0)"
    by (auto simp: is_ack_def)
  show ?thesis
    unfolding handleMessage_def Let_def
    using na wf wf_cache route
    by (auto split: sum.splits option.splits simp: Let_def)
qed

text \<open>
  The request-ID index is well formed in every state of the client, whatever the frames
  are: the client is constructed with an empty index, \<^verbatim>\<open>subscribe\<close> keeps it well formed
  when the error channel has a slot, and so does \<^verbatim>\<open>handleMessage\<close>, which returns on
  every frame. So an entry of the request-ID index always has room on its error channel.
\<close>

lemma requests_wf_room:
  assumes "requests_wf c" and "subscriptionByRequestID c rid = Some a"
  shows "ID (req (heap c a)) = rid \<and> length (err (heap c a)) < err_cap (heap c a)"
  using assms unfolding requests_wf_def by blast

lemma requests_wf_ConnectWithOptions:
  "ConnectWithOptions E url opt cache st = Inr c \<Longrightarrow> requests_wf c"
  by (auto simp: ConnectWithOptions_def Let_def requests_wf_def split: sum.splits)

lemma requests_wf_subscribe:
  assumes wf: "requests_wf c" and cap: "0 < errCapacity E"
  shows "requests_wf (snd (subscribe E c params conf m um dec))"
proof (cases "encode E (newRequest (mintID E) (minted c) params m conf)")
  case (Inl e)
  with wf show ?thesis
    by (simp add: subscribe_def Let_def requests_wf_def)
next
  case (Inr data)
  let ?r = "newRequest (mintID E) (minted c) params m conf"
  let ?a = "allocated c"
  let ?c' = "snd (subscribe E c params conf m um dec)"
  from Inr have
    req': "subscriptionByRequestID ?c' = (subscriptionByRequestID c)(ID ?r \<mapsto> ?a)"
    and heap': "heap ?c' = (heap c)(?a := newSubscription (streamCapacity E) (errCapacity E) ?r um dec)"
    and al': "allocated ?c' = Suc ?a"
    by (simp_all add: subscribe_def Let_def WriteMessage_def split: option.splits)
  from wf have old: "\<And>rid a. subscriptionByRequestID c rid = Some a \<Longrightarrow>
      ID (req (heap c a)) = rid \<and> length (err (heap c a)) < err_cap (heap c a) \<and> a < ?a"
    unfolding requests_wf_def by blast
  show ?thesis
    unfolding requests_wf_def
  proof (intro allI impI)
    fix rid a
    assume h: "subscriptionByRequestID ?c' rid = Some a"
    show "ID (req (heap ?c' a)) = rid \<and> length (err (heap ?c' a)) < err_cap (heap ?c' a) \<and>
          a < allocated ?c'"
    proof (cases "rid = ID ?r")
      case True
      with h req' have "a = ?a" by simp
      with True cap heap' al' show ?thesis by (simp add: newSubscription_def)
    next
      case False
      with h req' have "subscriptionByRequestID c rid = Some a" by simp
      from old [OF this] heap' al' show ?thesis by simp
    qed
  qed
qed

lemma requests_wf_ack:
  assumes wf: "requests_wf c"
  shows "requests_wf (handleNewSubscriptionMessage c rid sid)"
  using wf
  by (auto simp: handleNewSubscriptionMessage_def requests_wf_def split: option.splits)

lemma requests_wf_closeSubscription:
  assumes wf: "requests_wf c"
  shows "\<exists>c'. closeSubscription E c rid e = Some c' \<and> requests_wf c'"
proof (cases "subscriptionByRequestID c rid")
  case None
  with wf show ?thesis by (simp add: closeSubscription_def)
next
  case (Some a)
  from wf have old: "\<And>rid a. subscriptionByRequestID c rid = Some a \<Longrightarrow>
      ID (req (heap c a)) = rid \<and> length (err (heap c a)) < err_cap (heap c a) \<and> a < allocated c"
    unfolding requests_wf_def by blast
  from old [OF Some] have ida: "ID (req (heap c a)) = rid"
    and room: "length (err (heap c a)) < err_cap (heap c a)" by simp_all
  from closeSubscription_registered [OF Some room, of E e]
  obtain c' where c': "closeSubscription E c rid e = Some c'"
    and heap': "heap c' = (heap c)(a := (heap c a)\<lparr>err := err (heap c a) @ [e]\<rparr>)"
    and req': "subscriptionByRequestID c' = (subscriptionByRequestID c)(ID (req (heap c a)) := None)"
    by blast
  have al': "allocated c' = allocated c"
    using c' Some room
    by (auto simp: closeSubscription_def chan_send_def Let_def unsubscribe_def WriteMessage_def
        split: sum.splits option.splits prod.splits)
  have "requests_wf c'"
    unfolding requests_wf_def
  proof (intro allI impI)
    fix rid' a'
    assume "subscriptionByRequestID c' rid' = Some a'"
    with req' ida have ne: "rid' \<noteq> rid" and r: "subscriptionByRequestID c rid' = Some a'"
      by (auto split: if_splits)
    from old [OF r] ne ida have "a' \<noteq> a" by auto
    with old [OF r] heap' al'
    show "ID (req (heap c' a')) = rid' \<and> length (err (heap c' a')) < err_cap (heap c' a') \<and>
          a' < allocated c'"
      by simp
  qed
  with c' show ?thesis by blast
qed

lemma requests_wf_handleSubscriptionMessage:
  assumes wf: "requests_wf c"
  shows "\<exists>c'. handleSubscriptionMessage E c sid message = Some c' \<and> requests_wf c'"
proof (cases "subscriptionByWSSubID c sid")
  case None
  with wf show ?thesis by (simp add: handleSubscriptionMessage_def)
next
  case (Some a)
  show ?thesis
  proof (cases "decoderFunc (heap c a) message")
    case (Inl e)
    with Some requests_wf_closeSubscription [OF wf] show ?thesis
      by (simp add: handleSubscriptionMessage_def Let_def)
  next
    case (Inr v)
    show ?thesis
    proof (cases "stream_cap (heap c a) \<le> length (stream (heap c a))")
      case True
      with Some Inr requests_wf_closeSubscription [OF wf] show ?thesis
        by (simp add: handleSubscriptionMessage_def Let_def)
    next
      case False
      let ?c' = "c\<lparr>heap := (heap c)(a := (heap c a)\<lparr>stream := stream (heap c a) @ [v]\<rparr>)\<rparr>"
      from False Some Inr have "handleSubscriptionMessage E c sid message = Some ?c'"
        by (simp add: handleSubscriptionMessage_def Let_def)
      moreover from wf have "requests_wf ?c'"
        by (simp add: requests_wf_def)
      ultimately show ?thesis by blast
    qed
  qed
qed

lemma requests_wf_handleMessage:
  assumes wf: "requests_wf c"
  shows "\<exists>c'. handleMessage E c message = Some c' \<and> requests_wf c'"
proof (cases "is_ack E message")
  case True
  then have "handleMessage E c message = Some (handleNewSubscriptionMessage c
      (fst (jsoniter_Unmarshal_ack E message)) (snd (jsoniter_Unmarshal_ack E message)))"
    by (simp add: handleMessage_def is_ack_def Let_def)
  with requests_wf_ack [OF wf] show ?thesis by simp
next
  case False
  have wf_cache: "\<And>st. requests_wf (c\<lparr>sigCache_state := st\<rparr>)"
    using wf by (simp add: requests_wf_def)
  have route: "\<And>c0 meth. requests_wf c0 \<Longrightarrow>
      \<exists>c'. routeBySubID E c0 meth message = Some c' \<and> requests_wf c'"
    by (simp add: routeBySubID_def Let_def requests_wf_handleSubscriptionMessage)
  from False have na: "\<not> (length message < 128 \<and>
      fst (if length message < 128 then jsoniter_Unmarshal_ack E message else (0, 0)) \<noteq> 0 \<and>
      snd (if length message < 128 then jsoniter_Unmarshal_ack E message else (0, 0)) \<noteq> 0)"
    by (auto simp: is_ack_def)
  show ?thesis
    unfolding handleMessage_def Let_def
    using na wf wf_cache route
    by (auto split: sum.splits option.splits simp: Let_def)
qed

lemma requests_wf_handleMessages:
  assumes "requests_wf c"
  shows "\<exists>c'. handleMessages E c ms = Some c' \<and> requests_wf c'"
  using assms
proof (induction ms arbitrary: c)
  case Nil
  then show ?case by simp
next
  case (Cons m ms)
  from requests_wf_handleMessage [OF Cons.prems, of E m]
  obtain c1 where c1: "handleMessage E c m = Some c1" "requests_wf c1" by blast
  from Cons.IH [OF c1(2)] c1(1) show ?case by simp
qed

section \<open>Facts about the example inputs\<close>

lemma example_methods:
  "jsonparser_GetString exampleEnv logsFrame [''method''] = Inr ''logsNotification''"
  "jsonparser_GetString exampleEnv shortLogsFrame [''method''] = Inr ''logsNotification''"
  "jsonparser_GetString exampleEnv txFrame [''method''] = Inr ''transactionNotification''"
  by code_simp+

lemma example_not_ack:
  "\<not> is_ack exampleEnv logsFrame" "\<not> is_ack exampleEnv shortLogsFrame"
  "\<not> is_ack exampleEnv txFrame"
  by (simp_all add: is_ack_def logsFrame_def shortLogsFrame_def txFrame_def)

lemma example_discarder:
  "\<not> logsNotification_discarder logsFrame" "\<not> logsNotification_discarder shortLogsFrame"
  by code_simp+

lemma example_signatures:
  "logsNotification_signature (\<lambda>b. replicate 64 1) logsFrame = replicate 64 1"
  "logsNotification_signature (\<lambda>b. replicate 64 1) shortLogsFrame = zeroSignature"
  "transactionNotification_signature (\<lambda>b. replicate 64 1) txFrame = replicate 64 1"
  by code_simp+

lemma example_subIDs:
  "logsNotification_subID logsFrame = (42, True)"
  "logsNotification_subID shortLogsFrame = (42, True)"
  "transactionNotification_subID txFrame = (4743323479349712, True)"
  by code_simp+

lemma example_decoder:
  "frameDecoder shortLogsFrame = Inr shortLogsFrame"
  by code_simp

lemma example_tables:
  "sigRetrievals ackedClient = defaultSigRetrievals (\<lambda>b. replicate 64 1)"
  "txDiscarders ackedClient = defaultTxDiscarders"
  "subIDRetrievals ackedClient = defaultSubIDRetrievals"
  "sigCache ackedClient = listCache" "sigCache_state ackedClient = []"
  by (simp_all add: ackedClient_def subscribedClient_def freshClient_eq)


lemma listCache_records_membership: "records_membership listCache"
  by (simp add: records_membership_def listCache_def)

lemma example_reaches_dedup:
  "reaches_dedup exampleEnv ackedClient ''logsNotification'' logsFrame"
  "reaches_dedup exampleEnv deliveredClient ''logsNotification'' logsFrame"
  "reaches_dedup exampleEnv ackedClient ''logsNotification'' shortLogsFrame"
  by (simp_all add: reaches_dedup_def example_not_ack example_methods example_discarder
      example_tables deliveredClient_def defaultTxDiscarders_def)


lemma handleMessage_shortLogsFrame:
  "handleMessage exampleEnv ackedClient shortLogsFrame = Some missedClient"
proof -
  have retrieval: "sigRetrievals ackedClient ''logsNotification'' =
      Some (logsNotification_signature (\<lambda>b. replicate 64 1))"
    by (simp add: example_tables defaultSigRetrievals_def)
  show ?thesis
    by (subst reaches_dedup_unfold [OF example_reaches_dedup(3) retrieval])
      (simp add: example_signatures listCache_def Let_def
        routeBySubID_def handleSubscriptionMessage_def example_subIDs
        defaultSubIDRetrievals_def missedClient_def ackedClient_def
        subscribedClient_def freshClient_eq
        logsSubscription_def newSubscription_def example_decoder)
qed

lemma handleMessages_txFrame:
  "handleMessages exampleEnv missedClient [txFrame] = Some missedClient2"
proof -
  have tabs: "sigRetrievals missedClient = defaultSigRetrievals (\<lambda>b. replicate 64 1)"
    "txDiscarders missedClient = defaultTxDiscarders"
    "subIDRetrievals missedClient = defaultSubIDRetrievals"
    "sigCache missedClient = listCache" "sigCache_state missedClient = [zeroSignature]"
    "subscriptionByWSSubID missedClient = [42 \<mapsto> 0]"
    by (simp_all add: missedClient_def ackedClient_def subscribedClient_def freshClient_eq)
  have stage: "reaches_dedup exampleEnv missedClient ''transactionNotification'' txFrame"
    by (simp add: reaches_dedup_def example_not_ack example_methods tabs defaultTxDiscarders_def)
  have retrieval: "sigRetrievals missedClient ''transactionNotification'' =
      Some (transactionNotification_signature (\<lambda>b. replicate 64 1))"
    by (simp add: tabs defaultSigRetrievals_def)
  have "handleMessage exampleEnv missedClient txFrame = Some missedClient2"
    by (subst reaches_dedup_unfold [OF stage retrieval])
      (simp add: tabs example_signatures
        listCache_def zeroSignature_def Let_def routeBySubID_def handleSubscriptionMessage_def
        example_subIDs defaultSubIDRetrievals_def missedClient2_def)
  then show ?thesis by simp
qed







section \<open>Properties of the fast-path filters\<close>

text \<open>
  C6. The default \<^verbatim>\<open>transactionNotification\<close> sub-ID filter looks for the literal
  \<^verbatim>\<open>"subscription":\<close> in bytes 60 to 128 of the payload. It answers not-found when the
  payload is shorter than 128 bytes, when the literal does not occur in that range, and
  when none of space, comma, \<^verbatim>\<open>]\<close>, \<^verbatim>\<open>}\<close> follows the first occurrence of the literal
  in the range. Otherwise it takes the bytes between the literal and the first such
  delimiter, trims white space, and answers the number they denote if they are a
  non-empty string of decimal digits denoting a number below \<open>2 ^ 64\<close>, and not-found if
  they are not.
\<close>

theorem transactionNotification_subID_scan:
  "(length b < 128 \<longrightarrow> transactionNotification_subID b = (0, False)) \<and>
   ((\<nexists>p q. slice 60 128 b = p @ lit_subscription @ q) \<longrightarrow>
      transactionNotification_subID b = (0, False)) \<and>
   (\<forall>pre after.
      128 \<le> length b \<and> slice 60 128 b = pre @ lit_subscription @ after \<and>
      (\<forall>p q. slice 60 128 b = p @ lit_subscription @ q \<longrightarrow> length pre \<le> length p) \<longrightarrow>
        (set after \<inter> set delimiters = {} \<longrightarrow> transactionNotification_subID b = (0, False)) \<and>
        (\<forall>tx d rest.
           after = tx @ d # rest \<and> d \<in> set delimiters \<and> set tx \<inter> set delimiters = {} \<longrightarrow>
           transactionNotification_subID b =
             (let digits = bytes_TrimSpace tx in
              if digits \<noteq> [] \<and> (\<forall>c\<in>set digits. is_digit c) \<and> decimal digits < 2 ^ 64
              then (of_nat (decimal digits), True) else (0, False))))"
proof (intro conjI allI impI)
  assume "length b < 128"
  then show "transactionNotification_subID b = (0, False)"
    by (simp add: transactionNotification_subID_def)
next
  assume "\<nexists>p q. slice 60 128 b = p @ lit_subscription @ q"
  from bytes_Cut_absent [OF this] show "transactionNotification_subID b = (0, False)"
    by (simp add: transactionNotification_subID_def Let_def)
next
  fix pre after
  assume h: "128 \<le> length b \<and> slice 60 128 b = pre @ lit_subscription @ after \<and>
      (\<forall>p q. slice 60 128 b = p @ lit_subscription @ q \<longrightarrow> length pre \<le> length p)"
  then have cut: "bytes_Cut (slice 60 128 b) lit_subscription = (pre, after, True)"
    by (intro bytes_Cut_found) simp_all
  assume "set after \<inter> set delimiters = {}"
  then have "bytes_IndexAny after delimiters = None"
    by (simp add: bytes_IndexAny_None_iff)
  with h cut show "transactionNotification_subID b = (0, False)"
    by (simp add: transactionNotification_subID_def Let_def)
next
  fix pre after tx d rest
  assume h: "128 \<le> length b \<and> slice 60 128 b = pre @ lit_subscription @ after \<and>
      (\<forall>p q. slice 60 128 b = p @ lit_subscription @ q \<longrightarrow> length pre \<le> length p)"
  then have cut: "bytes_Cut (slice 60 128 b) lit_subscription = (pre, after, True)"
    by (intro bytes_Cut_found) simp_all
  assume a: "after = tx @ d # rest \<and> d \<in> set delimiters \<and> set tx \<inter> set delimiters = {}"
  then have idx: "bytes_IndexAny after delimiters = Some (length tx)"
    by (simp add: bytes_IndexAny_decomp)
  from a have tk: "take (length tx) after = tx" by simp
  from h have len: "\<not> length b < 128" by simp
  show "transactionNotification_subID b =
         (let digits = bytes_TrimSpace tx in
          if digits \<noteq> [] \<and> (\<forall>c\<in>set digits. is_digit c) \<and> decimal digits < 2 ^ 64
          then (of_nat (decimal digits), True) else (0, False))"
    unfolding transactionNotification_subID_def Let_def
    by (subst strconv_ParseUint_cases) (simp add: len cut idx tk)
qed

theorem transactionNotification_subID_scan_witness:
  \<open>transactionNotification_subID (take 100 txFrame) = (0, False) \<and>
   transactionNotification_subID txFrame = (4743323479349712, True)\<close>
proof -
  let ?after = \<open>''4743323479349712,"result":{"transaction":{"transact''\<close>
  let ?rest = \<open>''"result":{"transaction":{"transact''\<close>
  have short: "length (take 100 txFrame) < 128" by simp
  have len: "128 \<le> length txFrame" by (simp add: txFrame_def)
  have chunk: "slice 60 128 txFrame = '':{'' @ lit_subscription @ ?after"
    by code_simp
  have "bytes_Index (slice 60 128 txFrame) lit_subscription = Some 2"
    by code_simp
  then have first: "\<forall>p q. slice 60 128 txFrame = p @ lit_subscription @ q \<longrightarrow> length '':{'' \<le> length p"
    using bytes_Index_first by fastforce
  have dec: "?after = ''4743323479349712'' @ CHR '','' # ?rest" by simp
  have d: "CHR '','' \<in> set delimiters" by (simp add: delimiters_def)
  have nod: "set ''4743323479349712'' \<inter> set delimiters = {}" by (simp add: delimiters_def)
  have trim: "bytes_TrimSpace ''4743323479349712'' = ''4743323479349712''" by code_simp
  have digs: "\<forall>c\<in>set ''4743323479349712''. is_digit c" by (simp add: is_digit_def)
  have val: "decimal ''4743323479349712'' = 4743323479349712"
    by (simp add: decimal_def digit_val_def)
  from transactionNotification_subID_scan [of "take 100 txFrame"] short
  have one: "transactionNotification_subID (take 100 txFrame) = (0, False)" by blast
  from transactionNotification_subID_scan [of txFrame] len chunk first dec d nod
  have "transactionNotification_subID txFrame =
          (let digits = bytes_TrimSpace ''4743323479349712'' in
           if digits \<noteq> [] \<and> (\<forall>c\<in>set digits. is_digit c) \<and> decimal digits < 2 ^ 64
           then (of_nat (decimal digits), True) else (0, False))"
    by blast
  with trim digs val have two: "transactionNotification_subID txFrame = (4743323479349712, True)"
    by (simp add: Let_def)
  from one two show ?thesis by simp
qed

lemma logsNotification_discarder_length:
  "logsNotification_discarder b \<Longrightarrow> 256 \<le> length b"
  by (auto simp: logsNotification_discarder_def Let_def split: if_splits)

text \<open>
  C4, as stated, fails: in a \<^verbatim>\<open>logsNotification\<close> of a failed transaction whose context
  carries an \<^verbatim>\<open>apiVersion\<close>, the literal \<^verbatim>\<open>"err":\<close> stands in bytes 192 to 256 and is
  followed by \<^verbatim>\<open>{"InstructionEr\<close>, which is not \<^verbatim>\<open>null\<close>; no delimiter follows before byte
  256, and the discarder returns false.
\<close>

theorem discarder_no_delimiter_counterexample:
  \<open>256 \<le> length failedLogsFrameLongContext \<and>
   slice 192 256 failedLogsFrameLongContext =
     ''t8GFXM7W5Ncn16wmqokgpiKRLuS83KUxyZyv2sUYv",'' @ lit_err @ ''{"InstructionEr'' \<and>
   \<not> logsNotification_discarder failedLogsFrameLongContext\<close>
  by code_simp

text \<open>
  C4, amended. The default \<^verbatim>\<open>logsNotification\<close> discarder looks for the literal
  \<^verbatim>\<open>"err":\<close> in bytes 192 to 256 of the payload. It returns false when the payload is
  shorter than 256 bytes, when the literal does not occur in that range, and when none of
  space, comma, \<^verbatim>\<open>]\<close>, \<^verbatim>\<open>}\<close> follows the first occurrence of the literal in the range.
  Otherwise it returns true exactly when the bytes between the literal and the first such
  delimiter, white space trimmed, are not \<^verbatim>\<open>null\<close>. When the default discarders are
  installed and the discarder returns true on a \<^verbatim>\<open>logsNotification\<close>, \<^verbatim>\<open>handleMessage\<close>
  returns with the client unchanged: nothing is delivered.
\<close>

theorem logsNotification_discarder_scan:
  "(length b < 256 \<longrightarrow> \<not> logsNotification_discarder b) \<and>
   ((\<nexists>p q. slice 192 256 b = p @ lit_err @ q) \<longrightarrow> \<not> logsNotification_discarder b) \<and>
   (\<forall>pre after.
      256 \<le> length b \<and> slice 192 256 b = pre @ lit_err @ after \<and>
      (\<forall>p q. slice 192 256 b = p @ lit_err @ q \<longrightarrow> length pre \<le> length p) \<longrightarrow>
        (set after \<inter> set delimiters = {} \<longrightarrow> \<not> logsNotification_discarder b) \<and>
        (\<forall>tx d rest.
           after = tx @ d # rest \<and> d \<in> set delimiters \<and> set tx \<inter> set delimiters = {} \<longrightarrow>
           logsNotification_discarder b = (bytes_TrimSpace tx \<noteq> ''null''))) \<and>
   (txDiscarders c = defaultTxDiscarders \<and>
    jsonparser_GetString E b [''method''] = Inr ''logsNotification'' \<and>
    logsNotification_discarder b \<longrightarrow> handleMessage E c b = Some c)"
proof (intro conjI allI impI)
  assume "length b < 256"
  then show "\<not> logsNotification_discarder b"
    by (simp add: logsNotification_discarder_def)
next
  assume "\<nexists>p q. slice 192 256 b = p @ lit_err @ q"
  from bytes_Cut_absent [OF this] show "\<not> logsNotification_discarder b"
    by (simp add: logsNotification_discarder_def Let_def)
next
  fix pre after
  assume h: "256 \<le> length b \<and> slice 192 256 b = pre @ lit_err @ after \<and>
      (\<forall>p q. slice 192 256 b = p @ lit_err @ q \<longrightarrow> length pre \<le> length p)"
  then have cut: "bytes_Cut (slice 192 256 b) lit_err = (pre, after, True)"
    by (intro bytes_Cut_found) simp_all
  assume "set after \<inter> set delimiters = {}"
  then have "bytes_IndexAny after delimiters = None"
    by (simp add: bytes_IndexAny_None_iff)
  with h cut show "\<not> logsNotification_discarder b"
    by (simp add: logsNotification_discarder_def Let_def)
next
  fix pre after tx d rest
  assume h: "256 \<le> length b \<and> slice 192 256 b = pre @ lit_err @ after \<and>
      (\<forall>p q. slice 192 256 b = p @ lit_err @ q \<longrightarrow> length pre \<le> length p)"
  then have cut: "bytes_Cut (slice 192 256 b) lit_err = (pre, after, True)"
    by (intro bytes_Cut_found) simp_all
  assume a: "after = tx @ d # rest \<and> d \<in> set delimiters \<and> set tx \<inter> set delimiters = {}"
  then have idx: "bytes_IndexAny after delimiters = Some (length tx)"
    by (simp add: bytes_IndexAny_decomp)
  from a have tk: "take (length tx) after = tx" by simp
  from h have len: "\<not> length b < 256" by simp
  show "logsNotification_discarder b = (bytes_TrimSpace tx \<noteq> ''null'')"
    by (simp add: logsNotification_discarder_def Let_def len cut idx tk)
next
  assume h: "txDiscarders c = defaultTxDiscarders \<and>
    jsonparser_GetString E b [''method''] = Inr ''logsNotification'' \<and>
    logsNotification_discarder b"
  then have "256 \<le> length b" by (simp add: logsNotification_discarder_length)
  then have "\<not> length b < 128" by simp
  with h show "handleMessage E c b = Some c"
    by (simp add: handleMessage_def defaultTxDiscarders_def)
qed

theorem logsNotification_discarder_scan_witness:
  \<open>logsNotification_discarder failedLogsFrame \<and>
   handleMessage exampleEnv freshClient failedLogsFrame = Some freshClient \<and>
   \<not> logsNotification_discarder logsFrame \<and>
   \<not> logsNotification_discarder (take 255 logsFrame)\<close>
proof -
  have len: "256 \<le> length failedLogsFrame" "256 \<le> length logsFrame"
    by (simp_all add: failedLogsFrame_def logsFrame_def)
  have short: "length (take 255 logsFrame) < 256" by simp
  have chunk1: \<open>slice 192 256 failedLogsFrame =
      ''xyZyv2sUYv",'' @ lit_err @ ''{"InstructionError":[2,{"Custom":6001}]},"logs''\<close>
    by code_simp
  have chunk2: \<open>slice 192 256 logsFrame =
      ''xyZyv2sUYv",'' @ lit_err @ ''null,"logs":["Program 111111111111111111111111''\<close>
    by code_simp
  have "bytes_Index (slice 192 256 failedLogsFrame) lit_err = Some 12"
    by code_simp
  then have first1: \<open>\<forall>p q. slice 192 256 failedLogsFrame = p @ lit_err @ q \<longrightarrow>
      length ''xyZyv2sUYv",'' \<le> length p\<close>
    using bytes_Index_first by fastforce
  have "bytes_Index (slice 192 256 logsFrame) lit_err = Some 12"
    by code_simp
  then have first2: \<open>\<forall>p q. slice 192 256 logsFrame = p @ lit_err @ q \<longrightarrow>
      length ''xyZyv2sUYv",'' \<le> length p\<close>
    using bytes_Index_first by fastforce
  have dec1: \<open>''{"InstructionError":[2,{"Custom":6001}]},"logs'' =
      ''{"InstructionError":[2'' @ CHR '','' # ''{"Custom":6001}]},"logs''\<close> by simp
  have dec2: \<open>''null,"logs":["Program 111111111111111111111111'' =
      ''null'' @ CHR '','' # ''"logs":["Program 111111111111111111111111''\<close> by simp
  have d: "CHR '','' \<in> set delimiters" by (simp add: delimiters_def)
  have nod1: \<open>set ''{"InstructionError":[2'' \<inter> set delimiters = {}\<close>
    by (simp add: delimiters_def)
  have nod2: "set ''null'' \<inter> set delimiters = {}" by (simp add: delimiters_def)
  have trim1: \<open>bytes_TrimSpace ''{"InstructionError":[2'' \<noteq> ''null''\<close> by code_simp
  have trim2: "bytes_TrimSpace ''null'' = ''null''" by code_simp
  have tab: "txDiscarders freshClient = defaultTxDiscarders"
    by (simp add: freshClient_def ConnectWithOptions_def exampleEnv_def allOpts_def Let_def)
  have meth: "jsonparser_GetString exampleEnv failedLogsFrame [''method''] = Inr ''logsNotification''"
    by (simp add: exampleEnv_def frameMethod_def) code_simp
  from logsNotification_discarder_scan [of failedLogsFrame freshClient exampleEnv]
    len(1) chunk1 first1 dec1 d nod1 trim1
  have one: "logsNotification_discarder failedLogsFrame" by blast
  from logsNotification_discarder_scan [of failedLogsFrame freshClient exampleEnv] one tab meth
  have two: "handleMessage exampleEnv freshClient failedLogsFrame = Some freshClient" by blast
  from logsNotification_discarder_scan [of logsFrame freshClient exampleEnv]
    len(2) chunk2 first2 dec2 d nod2 trim2
  have three: "\<not> logsNotification_discarder logsFrame" by blast
  from logsNotification_discarder_scan [of "take 255 logsFrame" freshClient exampleEnv] short
  have four: "\<not> logsNotification_discarder (take 255 logsFrame)" by blast
  from one two three four show ?thesis by simp
qed

section \<open>Properties of the dispatcher\<close>

text \<open>
  C1. A frame shorter than 128 bytes in which the probe finds a non-zero id and a
  non-zero result is handled as a subscribe ack, and nothing else is done with it: the
  socket, the signature cache and the request-ID index stay as they are. If an entry is
  indexed under the id, that entry's subscription ID becomes the result and the entry is
  inserted into the subscription-ID index under the result; its request, stream and
  error channel and every other entry stay as they are. If no entry is indexed under the
  id, the client is unchanged.
\<close>

theorem handleMessage_ack:
  assumes "length message < 128"
    and "jsoniter_Unmarshal_ack E message = (rid, sid)"
    and "rid \<noteq> 0" and "sid \<noteq> 0"
  shows "\<exists>c'. handleMessage E c message = Some c' \<and>
           subscriptionByRequestID c' = subscriptionByRequestID c \<and>
           conn c' = conn c \<and> sigCache_state c' = sigCache_state c \<and>
           (case subscriptionByRequestID c rid of
              None \<Rightarrow> c' = c
            | Some a \<Rightarrow>
                subID (heap c' a) = sid \<and>
                subscriptionByWSSubID c' = (subscriptionByWSSubID c)(sid \<mapsto> a) \<and>
                req (heap c' a) = req (heap c a) \<and>
                stream (heap c' a) = stream (heap c a) \<and>
                err (heap c' a) = err (heap c a) \<and>
                (\<forall>a'. a' \<noteq> a \<longrightarrow> heap c' a' = heap c a'))"
  using assms
  by (simp add: handleMessage_def handleNewSubscriptionMessage_def split: option.splits)

theorem handleMessage_ack_witness:
  "length ackFrame < 128 \<and>
   subID (heap (the (handleMessage exampleEnv subscribedClient ackFrame)) 0) = 42 \<and>
   subscriptionByWSSubID (the (handleMessage exampleEnv subscribedClient ackFrame)) 42 = Some 0 \<and>
   subscriptionByRequestID (the (handleMessage exampleEnv subscribedClient ackFrame)) 1 = Some 0 \<and>
   handleMessage exampleEnv freshClient ackFrame = Some freshClient"
proof -
  have len: "length ackFrame < 128" by (simp add: ackFrame_def)
  have probe: "jsoniter_Unmarshal_ack exampleEnv ackFrame = (1, 42)"
    by (simp add: exampleEnv_def)
  have nz: "(1 :: uint64) \<noteq> 0" "(42 :: uint64) \<noteq> 0" by simp_all
  have reg: "subscriptionByRequestID subscribedClient 1 = Some 0"
    by (simp add: subscribedClient_def)
  have unreg: "subscriptionByRequestID freshClient 1 = None"
    by (simp add: freshClient_eq)
  from handleMessage_ack [OF len probe nz, of subscribedClient] reg
  obtain c' where c': "handleMessage exampleEnv subscribedClient ackFrame = Some c'"
    "subscriptionByRequestID c' = subscriptionByRequestID subscribedClient"
    "subID (heap c' 0) = 42"
    "subscriptionByWSSubID c' = (subscriptionByWSSubID subscribedClient)(42 \<mapsto> 0)"
    by auto
  from handleMessage_ack [OF len probe nz, of freshClient] unreg
  have "handleMessage exampleEnv freshClient ackFrame = Some freshClient" by auto
  with len c' reg show ?thesis by simp
qed






text \<open>
  C9. The default signature retrievers are installed and the cache records membership
  faithfully. A notification reaches the de-dup step and signature extraction misses on
  it, because the payload is too short or has no \<^verbatim>\<open>"signature":"\<close> in the range read.
  Then, once it has been handled, the cache has the all-zero signature; and after any
  further frames have been handled, a frame that is not taken for an ack, has a method
  with a default retriever, and on which extraction misses too, is dropped: only the
  state of the cache may differ.
\<close>

theorem zero_signature_dedup:
  assumes cache: "records_membership (sigCache c)"
    and installed: "sigRetrievals c = defaultSigRetrievals fromBase58"
    and first: "reaches_dedup E c meth message" "extraction_misses meth message"
    and run: "handleMessage E c message = Some c1" "handleMessages E c1 between = Some c2"
    and later: "\<not> is_ack E later" "jsonparser_GetString E later [''method''] = Inr meth2"
      "extraction_misses meth2 later"
  shows "fst (Has (sigCache c1) (sigCache_state c1) zeroSignature) \<and>
         (\<exists>st. handleMessage E c2 later = Some (c2\<lparr>sigCache_state := st\<rparr>))"
proof -
  from extraction_misses_zero [OF first(2), of fromBase58] installed
  obtain retr where retr: "sigRetrievals c meth = Some retr" "retr message = zeroSignature"
    by auto
  let ?has = "Has (sigCache c) (sigCache_state c) zeroSignature"
  have one: "sigCache c1 = sigCache c \<and> sigRetrievals c1 = sigRetrievals c \<and>
      fst (Has (sigCache c) (sigCache_state c1) zeroSignature)"
  proof (cases "fst ?has")
    case True
    with reaches_dedup_unfold [OF first(1) retr(1)] retr(2) run(1)
    have "c1 = c\<lparr>sigCache_state := snd ?has\<rparr>" by (simp add: Let_def)
    with True cache show ?thesis by (auto simp: records_membership_def)
  next
    case False
    let ?c' = "c\<lparr>sigCache_state := Set (sigCache c) (snd ?has) zeroSignature\<rparr>"
    from False reaches_dedup_unfold [OF first(1) retr(1)] retr(2) run(1)
    have "routeBySubID E ?c' meth message = Some c1" by (simp add: Let_def)
    from routeBySubID_same_filters [OF this]
    have "sigCache c1 = sigCache c" "sigRetrievals c1 = sigRetrievals c"
      "sigCache_state c1 = Set (sigCache c) (snd ?has) zeroSignature"
      by (simp_all add: same_filters_def)
    with cache show ?thesis by (auto simp: records_membership_def)
  qed
  then have rm1: "records_membership (sigCache c1)" using cache by simp
  from handleMessages_keeps_signatures [OF run(2) rm1] one
  have two: "sigCache c2 = sigCache c" "sigRetrievals c2 = sigRetrievals c"
    "fst (Has (sigCache c) (sigCache_state c2) zeroSignature)"
    by simp_all
  from extraction_misses_zero [OF later(3), of fromBase58] installed two(2)
  obtain retr2 where retr2: "sigRetrievals c2 meth2 = Some retr2" "retr2 later = zeroSignature"
    by auto
  have "\<exists>st. handleMessage E c2 later = Some (c2\<lparr>sigCache_state := st\<rparr>)"
  proof (cases "case txDiscarders c2 meth2 of Some txDiscarder \<Rightarrow> txDiscarder later | None \<Rightarrow> False")
    case True
    with later(1,2) have "handleMessage E c2 later = Some c2"
      by (auto simp: handleMessage_def is_ack_def Let_def)
    then have "handleMessage E c2 later = Some (c2\<lparr>sigCache_state := sigCache_state c2\<rparr>)"
      by simp
    then show ?thesis by blast
  next
    case False
    with later(1,2) have "reaches_dedup E c2 meth2 later"
      by (auto simp: reaches_dedup_def split: option.splits)
    from reaches_dedup_unfold [OF this retr2(1)] retr2(2) two
    show ?thesis by (auto simp: Let_def)
  qed
  with one show ?thesis by simp
qed

theorem zero_signature_dedup_witness:
  "extraction_misses ''logsNotification'' shortLogsFrame \<and>
   handleMessage exampleEnv ackedClient shortLogsFrame = Some missedClient \<and>
   fst (Has listCache (sigCache_state missedClient) zeroSignature) \<and>
   handleMessages exampleEnv missedClient [txFrame] = Some missedClient2 \<and>
   handleMessage exampleEnv missedClient2 shortLogsFrame = Some missedClient2"
proof -
  have misses: "extraction_misses ''logsNotification'' shortLogsFrame"
    by (simp add: extraction_misses_def shortLogsFrame_def)
  have rm: "records_membership (sigCache ackedClient)"
    by (simp add: example_tables listCache_records_membership)
  from zero_signature_dedup [OF rm example_tables(1) example_reaches_dedup(3) misses
      handleMessage_shortLogsFrame handleMessages_txFrame example_not_ack(2)
      example_methods(2) misses]
  obtain st where has: "fst (Has (sigCache missedClient) (sigCache_state missedClient) zeroSignature)"
    and dropped: "handleMessage exampleEnv missedClient2 shortLogsFrame =
        Some (missedClient2\<lparr>sigCache_state := st\<rparr>)"
    by blast
  have tabs: "sigCache missedClient = listCache"
    by (simp add: missedClient_def example_tables)
  have stage: "reaches_dedup exampleEnv missedClient2 ''logsNotification'' shortLogsFrame"
    by (simp add: reaches_dedup_def example_not_ack example_methods example_discarder
        missedClient2_def missedClient_def example_tables defaultTxDiscarders_def)
  have retrieval: "sigRetrievals missedClient2 ''logsNotification'' =
      Some (logsNotification_signature (\<lambda>b. replicate 64 1))"
    by (simp add: missedClient2_def missedClient_def example_tables defaultSigRetrievals_def)
  have "handleMessage exampleEnv missedClient2 shortLogsFrame = Some missedClient2"
    by (subst reaches_dedup_unfold [OF stage retrieval])
      (simp add: example_signatures
        missedClient2_def missedClient_def example_tables listCache_def Let_def)
  with misses has tabs handleMessage_shortLogsFrame handleMessages_txFrame show ?thesis
    by simp
qed

section \<open>Properties of subscribe\<close>

text \<open>
  C7. Every call to \<^verbatim>\<open>subscribe\<close> goes one of three ways. If the request does not
  encode, the encoding error is returned and neither the indices nor the socket change.
  If it encodes, the new entry, pending and with an empty error channel, is inserted
  into the request-ID index whatever the write does, and the subscription-ID index is
  left alone: if the write fails, \<^verbatim>\<open>subscribe\<close> returns the write error, nothing is
  written, and the entry is still in the request-ID index; if the write succeeds, the
  frame is written and the entry's address is returned.
\<close>

theorem subscribe_inserts_before_write:
  "let r = newRequest (mintID E) (minted c) params m conf;
       res = subscribe E c params conf m um dec;
       c' = snd res; a = allocated c
   in case encode E r of
        Inl e \<Rightarrow>
          fst res = Inl (SubscribeUnableToEncode e) \<and>
          subscriptionByRequestID c' = subscriptionByRequestID c \<and>
          subscriptionByWSSubID c' = subscriptionByWSSubID c \<and> conn c' = conn c
      | Inr data \<Rightarrow>
          subscriptionByRequestID c' = (subscriptionByRequestID c)(ID r \<mapsto> a) \<and>
          heap c' a = newSubscription (streamCapacity E) (errCapacity E) r um dec \<and>
          err (heap c' a) = [] \<and> subID (heap c' a) = 0 \<and>
          subscriptionByWSSubID c' = subscriptionByWSSubID c \<and>
          (case broken (conn c) of
             Some e \<Rightarrow> fst res = Inl (UnableToWriteRequest e) \<and> conn c' = conn c
           | None \<Rightarrow> fst res = Inr a \<and> written (conn c') = written (conn c) @ [data])"
  by (simp add: subscribe_def Let_def WriteMessage_def newSubscription_def
      split: option.splits sum.splits)

theorem subscribe_inserts_before_write_witness:
  "fst (subscribe exampleEnv brokenClient None None ''logsSubscribe'' ''logsUnsubscribe'' frameDecoder) =
     Inl (UnableToWriteRequest (External ''write: broken pipe'')) \<and>
   subscriptionByRequestID
     (snd (subscribe exampleEnv brokenClient None None ''logsSubscribe'' ''logsUnsubscribe'' frameDecoder)) 1 =
     Some 0 \<and>
   err (heap (snd (subscribe exampleEnv brokenClient None None ''logsSubscribe'' ''logsUnsubscribe'' frameDecoder)) 0) = [] \<and>
   fst (subscribe exampleEnv freshClient None None ''logsSubscribe'' ''logsUnsubscribe'' frameDecoder) = Inr 0"
proof -
  have enc: "encode exampleEnv (newRequest (mintID exampleEnv) (minted brokenClient) None ''logsSubscribe'' None) =
      Inr ''logsSubscribe''"
    "encode exampleEnv (newRequest (mintID exampleEnv) (minted freshClient) None ''logsSubscribe'' None) =
      Inr ''logsSubscribe''"
    by (simp_all add: exampleEnv_def newRequest_def)
  have br: "broken (conn brokenClient) = Some (External ''write: broken pipe'')"
    "broken (conn freshClient) = None"
    by (simp_all add: brokenClient_def brokenConn_def freshClient_eq okConn_def)
  have ids: "ID (newRequest (mintID exampleEnv) (minted brokenClient) None ''logsSubscribe'' None) = 1"
    "allocated brokenClient = 0" "allocated freshClient = 0"
    by (simp_all add: exampleEnv_def newRequest_def brokenClient_def freshClient_eq)
  from subscribe_inserts_before_write
    [of exampleEnv brokenClient None "''logsSubscribe''" None "''logsUnsubscribe''" frameDecoder]
  have one: "fst (subscribe exampleEnv brokenClient None None ''logsSubscribe'' ''logsUnsubscribe'' frameDecoder) =
       Inl (UnableToWriteRequest (External ''write: broken pipe'')) \<and>
     subscriptionByRequestID
       (snd (subscribe exampleEnv brokenClient None None ''logsSubscribe'' ''logsUnsubscribe'' frameDecoder)) 1 =
       Some 0 \<and>
     err (heap (snd (subscribe exampleEnv brokenClient None None ''logsSubscribe'' ''logsUnsubscribe'' frameDecoder)) 0) = []"
    by (simp add: Let_def enc br ids newSubscription_def)
  from subscribe_inserts_before_write
    [of exampleEnv freshClient None "''logsSubscribe''" None "''logsUnsubscribe''" frameDecoder]
  have two: "fst (subscribe exampleEnv freshClient None None ''logsSubscribe'' ''logsUnsubscribe'' frameDecoder) = Inr 0"
    by (simp add: Let_def enc br ids newSubscription_def)
  from one two show ?thesis by simp
qed

section \<open>Properties of the response decoder\<close>

text \<open>
  C8, as stated, fails: the body \<^verbatim>\<open>42\<close> has no error field and no \<^verbatim>\<open>params.result\<close>, and
  the decoder reports the error of the JSON decoding, not the null-result sentinel.
\<close>

theorem unparsable_body_counterexample:
  "decodeResponseFromMessage exampleEnv numberBody =
     Inl (External ''json: cannot unmarshal into Go value of type ws.response'') \<and>
   decodeResponseFromMessage exampleEnv numberBody \<noteq> Inl ErrNullResult"
  by (simp add: decodeResponseFromMessage_def exampleEnv_def numberBody_def errorBody_def
      stringErrorBody_def emptyBody_def)

text \<open>
  C8, amended. If the body decodes to an envelope with an error field that decodes as
  code, message and data, that error is returned. If the error field is there and does
  not decode, the error returned has the server-error code and the raw bytes of the error
  field as its message. If the body decodes to an envelope with no error field and no
  \<^verbatim>\<open>params\<close>, the null-result sentinel is returned. If the body does not decode, the
  decoding error is returned.
\<close>

theorem decodeResponseFromMessage_envelope:
  "(\<forall>c raw code msg data.
      json_Unmarshal_response E r = Inr (Some c) \<and> resp_Error c = Some raw \<and>
      json_Unmarshal_Error E raw = Inr (code, msg, data) \<longrightarrow>
        decodeResponseFromMessage E r = Inl (Json2Error code msg data)) \<and>
   (\<forall>c raw e.
      json_Unmarshal_response E r = Inr (Some c) \<and> resp_Error c = Some raw \<and>
      json_Unmarshal_Error E raw = Inl e \<longrightarrow>
        decodeResponseFromMessage E r = Inl (Json2Error E_SERVER raw None)) \<and>
   (\<forall>c. json_Unmarshal_response E r = Inr (Some c) \<and> resp_Error c = None \<and>
        resp_Params c = None \<longrightarrow>
        decodeResponseFromMessage E r = Inl ErrNullResult) \<and>
   (\<forall>e. json_Unmarshal_response E r = Inl e \<longrightarrow> decodeResponseFromMessage E r = Inl e)"
  by (simp add: decodeResponseFromMessage_def)

theorem decodeResponseFromMessage_envelope_witness:
  "decodeResponseFromMessage exampleEnv errorBody = Inl (Json2Error (- 32602) ''Invalid params'' None) \<and>
   decodeResponseFromMessage exampleEnv stringErrorBody =
     Inl (Json2Error E_SERVER (CHR 0x22 # ''overloaded'' @ [CHR 0x22]) None) \<and>
   decodeResponseFromMessage exampleEnv emptyBody = Inl ErrNullResult \<and>
   decodeResponseFromMessage exampleEnv numberBody =
     Inl (External ''json: cannot unmarshal into Go value of type ws.response'')"
proof -
  have neq: "stringErrorBody \<noteq> errorBody" "emptyBody \<noteq> errorBody" "emptyBody \<noteq> stringErrorBody"
    "numberBody \<noteq> errorBody" "numberBody \<noteq> stringErrorBody" "numberBody \<noteq> emptyBody"
    by (simp_all add: errorBody_def stringErrorBody_def emptyBody_def numberBody_def)
  have u1: \<open>json_Unmarshal_response exampleEnv errorBody =
      Inr (Some \<lparr> resp_Params = None, resp_Error = Some ''{"code":-32602,"message":"Invalid params"}'' \<rparr>)\<close>
    by (simp add: exampleEnv_def)
  have e1: \<open>json_Unmarshal_Error exampleEnv ''{"code":-32602,"message":"Invalid params"}'' =
      Inr (- 32602, ''Invalid params'', None)\<close>
    by (simp add: exampleEnv_def)
  have u2: \<open>json_Unmarshal_response exampleEnv stringErrorBody =
      Inr (Some \<lparr> resp_Params = None, resp_Error = Some ''"overloaded"'' \<rparr>)\<close>
    using neq by (simp add: exampleEnv_def)
  have e2: \<open>json_Unmarshal_Error exampleEnv ''"overloaded"'' =
      Inl (External ''json: cannot unmarshal into Go value of type json2.Error'')\<close>
    by (simp add: exampleEnv_def)
  have u3: "json_Unmarshal_response exampleEnv emptyBody =
      Inr (Some \<lparr> resp_Params = None, resp_Error = None \<rparr>)"
    using neq by (simp add: exampleEnv_def)
  have u4: "json_Unmarshal_response exampleEnv numberBody =
      Inl (External ''json: cannot unmarshal into Go value of type ws.response'')"
    using neq by (simp add: exampleEnv_def)
  from decodeResponseFromMessage_envelope [of exampleEnv errorBody] u1 e1
  have one: "decodeResponseFromMessage exampleEnv errorBody =
      Inl (Json2Error (- 32602) ''Invalid params'' None)"
    by simp
  from decodeResponseFromMessage_envelope [of exampleEnv stringErrorBody] u2 e2
  have two: "decodeResponseFromMessage exampleEnv stringErrorBody =
      Inl (Json2Error E_SERVER (CHR 0x22 # ''overloaded'' @ [CHR 0x22]) None)"
    by simp
  from decodeResponseFromMessage_envelope [of exampleEnv emptyBody] u3
  have three: "decodeResponseFromMessage exampleEnv emptyBody = Inl ErrNullResult"
    by simp
  from decodeResponseFromMessage_envelope [of exampleEnv numberBody] u4
  have four: "decodeResponseFromMessage exampleEnv numberBody =
      Inl (External ''json: cannot unmarshal into Go value of type ws.response'')"
    by simp
  from one two three four show ?thesis by simp
qed

section \<open>Properties of the construction\<close>

text \<open>
  C10. With a \<^verbatim>\<open>PongWait\<close> option of zero, whatever the \<^verbatim>\<open>PingPeriod\<close> option is,
  construction either fails because the dial fails, or yields a client with the default
  pong wait of 60 s and the default ping period of 54 s.
\<close>

theorem ConnectWithOptions_zero_PongWait:
  assumes "PongWait opts = 0"
  shows "case ConnectWithOptions E url (Some opts) cache st of
           Inr c \<Rightarrow> pongWait c = 60 * Second \<and> pingPeriod c = 54 * Second
         | Inl e \<Rightarrow> \<exists>d h e'. DialContext E d url h = Inl e' \<and> e = NewWsClientDial e'"
  using assms
  by (auto simp: ConnectWithOptions_def Let_def const_pongWait_eq const_pingPeriod_eq
      split: sum.splits)


theorem ConnectWithOptions_zero_PongWait_witness:
  "PongWait (pingPongOpts 0 (5 * Second)) = 0 \<and>
   (case ConnectWithOptions exampleEnv ''ws://node'' (Some (pingPongOpts 0 (5 * Second))) None () of
      Inr c \<Rightarrow> pongWait c = 60 * Second \<and> pingPeriod c = 54 * Second
    | Inl e \<Rightarrow> False)"
proof -
  have h: "PongWait (pingPongOpts 0 (5 * Second)) = 0" by (simp add: pingPongOpts_def)
  have ok: "\<exists>c. ConnectWithOptions exampleEnv ''ws://node'' (Some (pingPongOpts 0 (5 * Second))) None () = Inr c"
    by (simp add: ConnectWithOptions_def exampleEnv_def Let_def)
  from ConnectWithOptions_zero_PongWait [OF h, of exampleEnv "''ws://node''" None "()"] ok h
  show ?thesis by (auto split: sum.splits)
qed

text \<open>
  C3, as stated, fails: with the options \<^verbatim>\<open>PongWait\<close> = 1 s and \<^verbatim>\<open>PingPeriod\<close> = 2 s
  the client is constructed with a ping period of 2 s and a pong wait of 1 s. And with
  a \<^verbatim>\<open>PongWait\<close> of \<^verbatim>\<open>1 << 62\<close> nanoseconds and no \<^verbatim>\<open>PingPeriod\<close> the product
  \<^verbatim>\<open>PongWait * 9\<close> wraps around, and the derived ping period is one tenth of the pong
  wait, not nine tenths.
\<close>

theorem ping_ge_pong_counterexample:
  "(case ConnectWithOptions exampleEnv ''ws://node'' (Some (pingPongOpts Second (2 * Second))) None () of
      Inr c \<Rightarrow> pongWait c = Second \<and> pingPeriod c = 2 * Second \<and> \<not> pingPeriod c <s pongWait c
    | Inl e \<Rightarrow> False) \<and>
   (case ConnectWithOptions exampleEnv ''ws://node'' (Some (pingPongOpts (2 ^ 62) 0)) None () of
      Inr c \<Rightarrow> sint (pongWait c) = 4611686018427387904 \<and> sint (pingPeriod c) = 461168601842738790
    | Inl e \<Rightarrow> False)"
  by (simp add: ConnectWithOptions_def exampleEnv_def pingPongOpts_def Let_def Second_def
      word_sless_alt duration_div_def)

text \<open>
  C3, amended. For all options in which \<^verbatim>\<open>PingPeriod\<close>, when it and \<^verbatim>\<open>PongWait\<close> are
  both positive, is smaller than \<^verbatim>\<open>PongWait\<close>: construction either fails because the
  dial fails, or yields a client whose ping period is smaller than its pong wait.
  Without options the two are 60 s and 54 s. With a positive \<^verbatim>\<open>PongWait\<close> and no
  positive \<^verbatim>\<open>PingPeriod\<close>, the pong wait is the option and the ping period is
  \<^verbatim>\<open>(PongWait * 9) / 10\<close> in signed 64-bit arithmetic, which is nine tenths of the
  pong wait, rounded down, when \<^verbatim>\<open>PongWait * 9\<close> does not overflow.
\<close>

theorem ConnectWithOptions_ping_lt_pong:
  assumes "case opt of None \<Rightarrow> True
           | Some opts \<Rightarrow> 0 <s PongWait opts \<and> 0 <s PingPeriod opts \<longrightarrow> PingPeriod opts <s PongWait opts"
  shows "case ConnectWithOptions E url opt cache st of
           Inl e \<Rightarrow> \<exists>d h e'. DialContext E d url h = Inl e' \<and> e = NewWsClientDial e'
         | Inr c \<Rightarrow>
             pingPeriod c <s pongWait c \<and>
             (opt = None \<longrightarrow> pongWait c = 60 * Second \<and> pingPeriod c = 54 * Second) \<and>
             (\<forall>opts. opt = Some opts \<and> 0 <s PongWait opts \<and> \<not> 0 <s PingPeriod opts \<longrightarrow>
                pongWait c = PongWait opts \<and>
                pingPeriod c = duration_div (PongWait opts * 9) 10 \<and>
                (9 * sint (PongWait opts) < 2 ^ 63 \<longrightarrow>
                   sint (pingPeriod c) = (9 * sint (PongWait opts)) div 10))"
proof -
  have dflt: "const_pingPeriod <s const_pongWait"
    by (simp add: const_pingPeriod_eq const_pongWait_eq Second_def word_sless_alt)
  show ?thesis
  proof (cases "DialContext E
      \<lparr> dialer_HandshakeTimeout =
          (case opt of
             Some opts \<Rightarrow> if 0 <s HandshakeTimeout opts then HandshakeTimeout opts
                          else DefaultHandshakeTimeout E
           | None \<Rightarrow> DefaultHandshakeTimeout E),
         EnableCompression = True \<rparr> url
      (case opt of
         Some opts \<Rightarrow> (case HttpHeader opts of
                         Some h \<Rightarrow> if length h > 0 then Some h else None
                       | None \<Rightarrow> None)
       | None \<Rightarrow> None)")
    case (Inl e)
    then show ?thesis
      by (auto simp: ConnectWithOptions_def Let_def)
  next
    case (Inr cn)
    show ?thesis
    proof (cases opt)
      case None
      with Inr dflt show ?thesis
        by (simp add: ConnectWithOptions_def Let_def const_pongWait_eq const_pingPeriod_eq)
    next
      case (Some opts)
      with Inr dflt assms derived_lt [of "PongWait opts"] derived_exact [of "PongWait opts"]
      show ?thesis
        by (simp add: ConnectWithOptions_def Let_def)
    qed
  qed
qed

theorem ConnectWithOptions_ping_lt_pong_witness:
  "\<not> 0 <s PingPeriod (pingPongOpts (10 * Second) 0) \<and>
   (case ConnectWithOptions exampleEnv ''ws://node'' (Some (pingPongOpts (10 * Second) 0)) None () of
      Inr c \<Rightarrow> pingPeriod c <s pongWait c \<and> pongWait c = 10 * Second \<and> pingPeriod c = 9 * Second
    | Inl e \<Rightarrow> False) \<and>
   (case ConnectWithOptions exampleEnv ''ws://node'' None None () of
      Inr c \<Rightarrow> pingPeriod c <s pongWait c \<and> pongWait c = 60 * Second \<and> pingPeriod c = 54 * Second
    | Inl e \<Rightarrow> False)"
proof -
  let ?opts = "pingPongOpts (10 * Second) 0"
  have pos: "0 <s PongWait ?opts" and np: "\<not> 0 <s PingPeriod ?opts"
    by (simp_all add: pingPongOpts_def Second_def word_sless_alt)
  have small: "9 * sint (PongWait ?opts) < 2 ^ 63"
    by (simp add: pingPongOpts_def Second_def)
  have hyp: "case Some ?opts of None \<Rightarrow> True
             | Some opts \<Rightarrow> 0 <s PongWait opts \<and> 0 <s PingPeriod opts \<longrightarrow> PingPeriod opts <s PongWait opts"
    using np by simp
  obtain c where c: "ConnectWithOptions exampleEnv ''ws://node'' (Some ?opts) None () = Inr c"
    by (simp add: ConnectWithOptions_def exampleEnv_def Let_def)
  obtain c' where c': "ConnectWithOptions exampleEnv ''ws://node'' None None () = Inr c'"
    by (simp add: ConnectWithOptions_def exampleEnv_def Let_def)
  from ConnectWithOptions_ping_lt_pong [OF hyp, of exampleEnv "''ws://node''" None "()"]
  have all: "pingPeriod c <s pongWait c \<and>
             (Some ?opts = None \<longrightarrow> pongWait c = 60 * Second \<and> pingPeriod c = 54 * Second) \<and>
             (\<forall>opts. Some ?opts = Some opts \<and> 0 <s PongWait opts \<and> \<not> 0 <s PingPeriod opts \<longrightarrow>
                pongWait c = PongWait opts \<and>
                pingPeriod c = duration_div (PongWait opts * 9) 10 \<and>
                (9 * sint (PongWait opts) < 2 ^ 63 \<longrightarrow>
                   sint (pingPeriod c) = (9 * sint (PongWait opts)) div 10))"
    unfolding c sum.case by blast
  then have lt: "pingPeriod c <s pongWait c" by blast
  from all pos np small have pw: "pongWait c = PongWait ?opts"
    and pp: "sint (pingPeriod c) = (9 * sint (PongWait ?opts)) div 10"
    by blast+
  from pp have "sint (pingPeriod c) = sint (9 * Second)"
    by (simp add: pingPongOpts_def Second_def)
  then have pp': "pingPeriod c = 9 * Second" by (simp only: signed_word_eqI)
  have hypN: "case None of None \<Rightarrow> True
              | Some opts \<Rightarrow> 0 <s PongWait opts \<and> 0 <s PingPeriod opts \<longrightarrow> PingPeriod opts <s PongWait opts"
    by simp
  from ConnectWithOptions_ping_lt_pong [OF hypN, of exampleEnv "''ws://node''" None "()"]
  have dflt: "pingPeriod c' <s pongWait c' \<and> pongWait c' = 60 * Second \<and> pingPeriod c' = 54 * Second"
    unfolding c' sum.case by blast
  from pw have pw': "pongWait c = 10 * Second" by (simp add: pingPongOpts_def)
  from np lt pw' pp' dflt show ?thesis unfolding c c' sum.case by blast
qed

end
